theory Spec2Isabelle
  imports Main "HOL-Library.Word" "HOL-Library.Char_ord" "HOL-Library.List_Lexorder"
begin

unbundle bit_operations_syntax

section \<open>The MinROS node of the Septentrio GNSS driver\<close>

text \<open>
  A shallow embedding of \<^verbatim>\<open>minros_node.hpp\<close> and \<^verbatim>\<open>minros_node.cpp\<close>. The node's private
  fields form a record that every method takes and returns; a \<^verbatim>\<open>throw\<close> is a value of
  type \<open>outcome\<close> that carries the state reached when the exception left the method.
  The collaborators whose code is not part of these two files (the ROS parameter server,
  the serial layer behind \<^verbatim>\<open>IO.InitializeSerial\<close>, the ROS timer) appear as parameters or
  as small models that are named as such where they are introduced.
\<close>

subsection \<open>Exceptions and the parameter server\<close>

text \<open>\<^verbatim>\<open>std::runtime_error(what)\<close>, the only exception type the node throws.\<close>

datatype error = RuntimeError string

text \<open>
  The parameter server behind the global node handle \<^verbatim>\<open>nh\<close>, one map per value type the
  node asks for. An \<^verbatim>\<open>int\<close> is a 32-bit word read in two's complement.
\<close>

record param_server =
  string_params :: "string \<rightharpoonup> string"
  int_params :: "string \<rightharpoonup> 32 word"
  bool_params :: "string \<rightharpoonup> bool"

text \<open>\<^verbatim>\<open>nh->param(key, var, default)\<close>: the stored value, or the default when the key is absent.\<close>

definition param :: "(string \<rightharpoonup> 'a) \<Rightarrow> string \<Rightarrow> 'a \<Rightarrow> 'a" where
  "param m key default_val = (case m key of Some v \<Rightarrow> v | None \<Rightarrow> default_val)"

subsection \<open>Range checking and the integer getter\<close>

text \<open>
  The template parameter \<^verbatim>\<open>U\<close> of \<^verbatim>\<open>GetROSInt\<close> is an integer type: a width (the word
  length \<open>'a\<close>) and a signedness, which selects the comparison and the numeric limits.
\<close>

datatype signedness = Signed | Unsigned

definition numeric_limits_lowest :: "signedness \<Rightarrow> 'a::len word" where
  "numeric_limits_lowest s = (case s of Unsigned \<Rightarrow> 0 | Signed \<Rightarrow> - (2 ^ (LENGTH('a) - 1)))"

definition numeric_limits_max :: "signedness \<Rightarrow> 'a::len word" where
  "numeric_limits_max s = (case s of Unsigned \<Rightarrow> - 1 | Signed \<Rightarrow> 2 ^ (LENGTH('a) - 1) - 1)"

definition less_U :: "signedness \<Rightarrow> 'a::len word \<Rightarrow> 'a word \<Rightarrow> bool" where
  "less_U s a b = (case s of Unsigned \<Rightarrow> a < b | Signed \<Rightarrow> a <s b)"

text \<open>
  The rendering of the bounds as \<^verbatim>\<open>operator<<\<close> prints them into the message: in decimal,
  except that an integer type of eight bits is a character type and is printed as the
  character with that code.
\<close>

definition digit_char :: "nat \<Rightarrow> char" where
  "digit_char d = ''0123456789'' ! (d mod 10)"

fun show_nat :: "nat \<Rightarrow> string" where
  "show_nat n = (if n < 10 then [digit_char n] else show_nat (n div 10) @ [digit_char (n mod 10)])"

declare show_nat.simps [simp del]

definition show_int :: "int \<Rightarrow> string" where
  "show_int i = (if i < 0 then CHR ''-'' # show_nat (nat (- i)) else show_nat (nat i))"

definition show_U :: "signedness \<Rightarrow> 'a::len word \<Rightarrow> string" where
  "show_U s w =
     (if LENGTH('a) = 8 then [char_of (unat w)]
      else case s of Unsigned \<Rightarrow> show_nat (unat w) | Signed \<Rightarrow> show_int (sint w))"

text \<open>
  \<^verbatim>\<open>checkRange(val, min, max, name)\<close> for a scalar: throws when \<^verbatim>\<open>val < min || val > max\<close>.
  In the call made by \<^verbatim>\<open>GetROSInt\<close> all three values have type \<^verbatim>\<open>U\<close>.
\<close>

definition checkRange :: "signedness \<Rightarrow> 'a::len word \<Rightarrow> 'a word \<Rightarrow> 'a word \<Rightarrow> string \<Rightarrow> error + unit" where
  "checkRange s val min_val max_val name =
     (if less_U s val min_val \<or> less_U s max_val val
      then Inl (RuntimeError (''Invalid settings: '' @ name @ '' must be in range ['' @
                 show_U s min_val @ '', '' @ show_U s max_val @ ''].''))
      else Inr ())"

text \<open>
  \<^verbatim>\<open>bool GetROSInt(key, U &u)\<close>: the result is the return value paired with the content of
  the output parameter \<^verbatim>\<open>u\<close>. The C cast \<^verbatim>\<open>(U) param\<close> of an \<^verbatim>\<open>int\<close> is \<open>scast\<close>: it
  truncates to a narrower type and sign-extends to a wider one, whatever the signedness
  of \<^verbatim>\<open>U\<close>.
\<close>

definition GetROSInt :: "signedness \<Rightarrow> param_server \<Rightarrow> string \<Rightarrow> 'a::len word \<Rightarrow> error + bool \<times> 'a word" where
  "GetROSInt s nh key u =
     (case int_params nh key of
        None \<Rightarrow> Inr (False, u)
      | Some p \<Rightarrow>
          (case checkRange s (scast p :: 'a word) (numeric_limits_lowest s) (numeric_limits_max s) key of
             Inl e \<Rightarrow> Inl e
           | Inr _ \<Rightarrow> Inr (True, scast p)))"

text \<open>
  \<^verbatim>\<open>void GetROSInt(key, U &u, V default_val)\<close>; the default is an \<^verbatim>\<open>int\<close> that the
  assignment converts to \<^verbatim>\<open>U\<close>. The result is the final content of \<^verbatim>\<open>u\<close>.
\<close>

definition GetROSInt_default :: "signedness \<Rightarrow> param_server \<Rightarrow> string \<Rightarrow> 'a::len word \<Rightarrow> 32 word \<Rightarrow> error + 'a word" where
  "GetROSInt_default s nh key u default_val =
     (case GetROSInt s nh key u of
        Inl e \<Rightarrow> Inl e
      | Inr (found, u') \<Rightarrow> Inr (if found then u' else scast default_val))"

subsection \<open>The connection descriptor\<close>

text \<open>
  \<^verbatim>\<open>boost::regex_match(device_, match, boost::regex("(tcp|udp)://(.+):(\\d+)"))\<close> holds only
  when the pattern matches the whole string. The matcher below returns the three
  sub-matches. The greedy \<^verbatim>\<open>.+\<close> is tried with the longest host first and gives characters
  back until the rest is a colon followed by one or more digits. In Boost's default
  syntax \<^verbatim>\<open>.\<close> stands for any character and \<^verbatim>\<open>\d\<close> for one of the ten digits.
\<close>

definition is_digit :: "char \<Rightarrow> bool" where
  "is_digit c = (c \<in> set ''0123456789'')"

definition strip_prefix :: "string \<Rightarrow> string \<Rightarrow> string option" where
  "strip_prefix p s = (if take (length p) s = p then Some (drop (length p) s) else None)"

fun match_host_port :: "nat \<Rightarrow> string \<Rightarrow> (string \<times> string) option" where
  "match_host_port 0 s = None"
| "match_host_port (Suc n) s =
     (case drop (Suc n) s of
        [] \<Rightarrow> match_host_port n s
      | c # port \<Rightarrow>
          if c = CHR '':'' \<and> port \<noteq> [] \<and> list_all is_digit port
          then Some (take (Suc n) s, port)
          else match_host_port n s)"

definition regex_match :: "string \<Rightarrow> (string \<times> string \<times> string) option" where
  "regex_match s =
     (case strip_prefix ''tcp://'' s of
        Some r \<Rightarrow> map_option (\<lambda>(host, port). (''tcp'', host, port)) (match_host_port (length r) r)
      | None \<Rightarrow>
          (case strip_prefix ''udp://'' s of
             Some r \<Rightarrow> map_option (\<lambda>(host, port). (''udp'', host, port)) (match_host_port (length r) r)
           | None \<Rightarrow> None))"

subsection \<open>The node's state\<close>

text \<open>
  \<^verbatim>\<open>ros::Timer\<close>: the node only ever calls \<^verbatim>\<open>stop()\<close> on it. A default-constructed timer is
  not started.
\<close>

record timer =
  started :: bool

definition stop :: "timer \<Rightarrow> timer" where
  "stop t = t\<lparr>started := False\<rparr>"

text \<open>
  What the node does to the outside world, in order: a call of \<^verbatim>\<open>IO.InitializeSerial\<close> with
  its arguments and its result, and a call of \<^verbatim>\<open>reconnect_timer_.stop()\<close>.
\<close>

datatype event = SerialInit string "32 word" bool | TimerStop

text \<open>
  A handler as \<^verbatim>\<open>Subscribe\<close> builds it:
  \<^verbatim>\<open>boost::bind(publish<MessageT>, _1, topic)\<close>, with the name of \<^verbatim>\<open>MessageT\<close> and the topic.
\<close>

datatype handler = Bind_publish string string

text \<open>
  The private fields of \<^verbatim>\<open>MinROSNode\<close>, the multimap \<^verbatim>\<open>IO.handlers_.callbacks_\<close> and the log
  of events. The member names lose their trailing underscore (\<^verbatim>\<open>device_\<close> is \<open>device\<close>): a
  name that ends in an underscore is reserved in Isabelle. The field \<^verbatim>\<open>reconnect_delay_s_\<close> is declared but never read or written by
  any statement of the two files, so it has no counterpart here.
\<close>

record node =
  device :: string
  baudrate :: "32 word"
  reconnect_timer :: timer
  connected :: bool
  publish_gpgga :: bool
  callbacks :: "(string \<times> handler) list"
  events :: "event list"

datatype outcome = Returned node | Threw error node

text \<open>
  A freshly constructed node: \<^verbatim>\<open>connected_ = false\<close> by its initialiser, an empty string, a
  default timer, an empty registry. The two fields without an initialiser hold whatever
  the arguments say.
\<close>

definition fresh_node :: "32 word \<Rightarrow> bool \<Rightarrow> node" where
  "fresh_node b g =
     \<lparr>device = [], baudrate = b, reconnect_timer = \<lparr>started = False\<rparr>, connected = False,
      publish_gpgga = g, callbacks = [], events = []\<rparr>"

text \<open>
  \<^verbatim>\<open>IO.InitializeSerial(port, baudrate)\<close> is declared in \<^verbatim>\<open>communication_core.hpp\<close>, which is
  not among the sources. Its boolean result is a parameter: a function of everything
  that happened before and of the two arguments. The call is logged.
\<close>

type_synonym serial_env = "event list \<Rightarrow> string \<Rightarrow> 32 word \<Rightarrow> bool"

definition InitializeSerial :: "serial_env \<Rightarrow> string \<Rightarrow> 32 word \<Rightarrow> node \<Rightarrow> bool \<times> node" where
  "InitializeSerial env port baud st =
     (let ok = env (events st) port baud
      in (ok, st\<lparr>events := events st @ [SerialInit port baud ok]\<rparr>))"

subsection \<open>The node's methods\<close>

definition GetROSParams :: "param_server \<Rightarrow> node \<Rightarrow> outcome" where
  "GetROSParams nh st =
     (let st1 = st\<lparr>device := param (string_params nh) ''device'' ''/dev/ttyACM0''\<rparr>
      in case GetROSInt_default Unsigned nh ''serial/baudrate'' (baudrate st1) 115200 of
           Inl e \<Rightarrow> Threw e st1
         | Inr b \<Rightarrow> Returned (st1\<lparr>baudrate := b\<rparr>))"

text \<open>
  \<^verbatim>\<open>InitializeIO\<close>. The \<^verbatim>\<open>tcp\<close> branch is empty in the source (its body is commented out),
  and so are the statements that would create and start the reconnect timer: the serial
  branch calls \<^verbatim>\<open>IO.InitializeSerial\<close> once and drops its result.
\<close>

definition InitializeIO :: "serial_env \<Rightarrow> node \<Rightarrow> outcome" where
  "InitializeIO env st =
     (case regex_match (device st) of
        Some (proto, host, port) \<Rightarrow>
          if proto = ''tcp'' then Returned st
          else Threw (RuntimeError (''Protocol '' @ [CHR 0x27] @ proto @ [CHR 0x27] @ '' is unsupported'')) st
      | None \<Rightarrow> Returned (snd (InitializeSerial env (device st) (baudrate st) st)))"

definition Reconnect :: "serial_env \<Rightarrow> node \<Rightarrow> node" where
  "Reconnect env st =
     (let (ok, st1) = InitializeSerial env (device st) (baudrate st) st;
          st2 = (if ok then st1\<lparr>connected := True\<rparr> else st1)
      in if connected st2
         then st2\<lparr>reconnect_timer := stop (reconnect_timer st2), events := events st2 @ [TimerStop]\<rparr>
         else st2)"

text \<open>
  The callback of the reconnect timer is \<^verbatim>\<open>Reconnect\<close>, and \<^verbatim>\<open>ros::Timer\<close> calls its callback
  only while the timer is started: one expiry of the period is \<open>timer_fire\<close>.
\<close>

definition timer_fire :: "serial_env \<Rightarrow> node \<Rightarrow> node" where
  "timer_fire env st = (if started (reconnect_timer st) then Reconnect env st else st)"

subsection \<open>The callback registry\<close>

text \<open>
  Modelled from the spec: \<^verbatim>\<open>CallbackHandlers::insert\<close>, which \<^verbatim>\<open>Subscribe\<close> calls, is defined
  in \<^verbatim>\<open>communication_core.hpp\<close>, not among the sources. The source shows the container,
  \<^verbatim>\<open>std::multimap<std::string, boost::shared_ptr<CallbackHandler> >\<close>; the spec (4.4) says
  that \<^verbatim>\<open>insert(identifier, handler)\<close> appends a handler for that identifier. A multimap
  keeps its entries ordered by key and puts a new entry behind the entries of an equal
  key; \<^verbatim>\<open>std::string\<close> keys compare bytewise.
\<close>

fun insert_handler :: "string \<Rightarrow> 'h \<Rightarrow> (string \<times> 'h) list \<Rightarrow> (string \<times> 'h) list" where
  "insert_handler k h [] = [(k, h)]"
| "insert_handler k h ((k', h') # cbs) =
     (if k < k' then (k, h) # (k', h') # cbs else (k', h') # insert_handler k h cbs)"

text \<open>
  Modelled from the spec: the lookup side of the registry (4.4), whose code is not among
  the sources. \<open>equal_range\<close> is the multimap's range of entries with the given key,
  \<open>count_handlers\<close> is \<^verbatim>\<open>count(identifier)\<close>, and \<^verbatim>\<open>dispatch(identifier, payload)\<close> invokes, in
  insertion order, every handler registered for that identifier with the same payload.
  What invoking a handler does is the parameter \<open>run\<close>.
\<close>

definition equal_range :: "string \<Rightarrow> (string \<times> 'h) list \<Rightarrow> (string \<times> 'h) list" where
  "equal_range k cbs = takeWhile (\<lambda>(k', h). \<not> k < k') (dropWhile (\<lambda>(k', h). k' < k) cbs)"

definition count_handlers :: "string \<Rightarrow> (string \<times> 'h) list \<Rightarrow> nat" where
  "count_handlers k cbs = length (equal_range k cbs)"

definition dispatch :: "('h \<Rightarrow> 'p \<Rightarrow> 's \<Rightarrow> 's) \<Rightarrow> string \<Rightarrow> 'p \<Rightarrow> (string \<times> 'h) list \<Rightarrow> 's \<Rightarrow> 's" where
  "dispatch run k p cbs s = foldl (\<lambda>s' h. run h p s') s (map snd (equal_range k cbs))"

text \<open>The registry after a sequence of registrations, first to last.\<close>

definition register_all :: "(string \<times> 'h) list \<Rightarrow> (string \<times> 'h) list \<Rightarrow> (string \<times> 'h) list" where
  "register_all regs cbs = foldl (\<lambda>acc (k, h). insert_handler k h acc) cbs regs"

subsection \<open>Publishing\<close>

definition ROSQueueSize :: "32 word" where
  "ROSQueueSize = 1"

text \<open>
  The host side of \<^verbatim>\<open>publish<MessageT>\<close>. The function-local
  \<^verbatim>\<open>static ros::Publisher publisher\<close> exists once per instantiation, so \<open>publishers\<close> maps
  the name of \<^verbatim>\<open>MessageT\<close> to the topic its publisher was advertised on, and is undefined
  until the first call. \<open>advertised\<close> logs the calls of \<^verbatim>\<open>nh->advertise\<close> (message type,
  topic, queue size), \<open>published\<close> the calls of \<^verbatim>\<open>publisher.publish(m)\<close> (message type, the
  publisher's topic, message).
\<close>

record 'm ros_out =
  publishers :: "string \<rightharpoonup> string"
  advertised :: "(string \<times> string \<times> 32 word) list"
  published :: "(string \<times> string \<times> 'm) list"

definition ros_start :: "'m ros_out" where
  "ros_start = \<lparr>publishers = Map.empty, advertised = [], published = []\<rparr>"

definition publish :: "string \<Rightarrow> 'm \<Rightarrow> string \<Rightarrow> 'm ros_out \<Rightarrow> 'm ros_out" where
  "publish ty m topic r =
     (case publishers r ty of
        None \<Rightarrow>
          r\<lparr>publishers := (publishers r)(ty \<mapsto> topic),
            advertised := advertised r @ [(ty, topic, ROSQueueSize)],
            published := published r @ [(ty, topic, m)]\<rparr>
      | Some bound \<Rightarrow> r\<lparr>published := published r @ [(ty, bound, m)]\<rparr>)"

text \<open>A sequence of calls \<^verbatim>\<open>publish<MessageT>(m, topic)\<close> for one \<^verbatim>\<open>MessageT\<close>.\<close>

definition publish_all :: "string \<Rightarrow> ('m \<times> string) list \<Rightarrow> 'm ros_out \<Rightarrow> 'm ros_out" where
  "publish_all ty calls r = foldl (\<lambda>r' (m, topic). publish ty m topic r') r calls"

fun run_handler :: "handler \<Rightarrow> 'm \<Rightarrow> 'm ros_out \<Rightarrow> 'm ros_out" where
  "run_handler (Bind_publish ty topic) m r = publish ty m topic r"

subsection \<open>Subscribing and construction\<close>

definition Subscribe :: "param_server \<Rightarrow> node \<Rightarrow> node" where
  "Subscribe nh st =
     (let st1 = st\<lparr>publish_gpgga := param (bool_params nh) ''publish/gpgga'' True\<rparr>
      in if publish_gpgga st1
         then st1\<lparr>callbacks :=
                   insert_handler ''$GPGGA'' (Bind_publish ''nmea_msgs::Gpgga'' ''/gpgga'') (callbacks st1)\<rparr>
         else st1)"

text \<open>
  The constructor, up to \<^verbatim>\<open>ros::spin()\<close>. No statement catches an exception, so a
  \<^verbatim>\<open>throw\<close> ends the constructor at once. \<^verbatim>\<open>StringValues_Initialize()\<close> is a free function
  defined outside these sources; it cannot reach the node's private fields and has no
  counterpart here.
\<close>

definition MinROSNode :: "param_server \<Rightarrow> serial_env \<Rightarrow> node \<Rightarrow> outcome" where
  "MinROSNode nh env st0 =
     (case GetROSParams nh st0 of
        Threw e st \<Rightarrow> Threw e st
      | Returned st1 \<Rightarrow>
          (case InitializeIO env st1 of
             Threw e st \<Rightarrow> Threw e st
           | Returned st2 \<Rightarrow> Returned (Subscribe nh st2)))"

subsection \<open>The ASCII decoder and the dispatcher\<close>

text \<open>
  Modelled from the spec: the frame decoder and the dispatch loop live in
  \<^verbatim>\<open>communication_core.hpp\<close> and the files it includes, none of which is among the sources.
  The spec (4.3) says: an ASCII frame starts at \<^verbatim>\<open>$\<close> and ends at the first line
  terminator; the two bytes following \<^verbatim>\<open>*\<close> are the checksum; the checksum is the
  cumulative exclusive-or of all bytes strictly between \<^verbatim>\<open>$\<close> and \<^verbatim>\<open>*\<close>, rendered as two
  uppercase hexadecimal digits; a mismatch gives \<^verbatim>\<open>valid=false\<close> and the frame is still
  yielded; the identifier is the token between \<^verbatim>\<open>$\<close> and the first comma. The argument of
  \<open>decode_ascii\<close> is the frame without its line terminator.
\<close>

datatype encoding = Binary | Ascii

text \<open>The field \<open>ident\<close> is the spec's \<^verbatim>\<open>identifier\<close>, a word that Isabelle reserves.\<close>

record decoded_message =
  ident :: string
  payload :: string
  encoding :: encoding
  valid :: bool

definition xor_checksum :: "string \<Rightarrow> 8 word" where
  "xor_checksum body = foldl (\<lambda>acc c. acc XOR of_char c) 0 body"

definition hex_digit :: "nat \<Rightarrow> char" where
  "hex_digit d = ''0123456789ABCDEF'' ! (d mod 16)"

definition render_hex :: "8 word \<Rightarrow> string" where
  "render_hex b = [hex_digit (unat b div 16), hex_digit (unat b mod 16)]"

text \<open>
  The value of an uppercase hexadecimal digit read from its character code (\<open>0\<close> to \<open>9\<close>
  are the codes 48 to 57, \<open>A\<close> to \<open>F\<close> the codes 65 to 70): the reading against which the
  rendering of the checksum is checked.
\<close>

definition hex_value :: "char \<Rightarrow> nat" where
  "hex_value c = (if of_char c < (58 :: nat) then of_char c - 48 else of_char c - 55)"

definition decode_ascii :: "string \<Rightarrow> decoded_message option" where
  "decode_ascii frame =
     (case frame of
        [] \<Rightarrow> None
      | c # rest \<Rightarrow>
          if c \<noteq> CHR ''$'' then None
          else
            let body = takeWhile (\<lambda>x. x \<noteq> CHR ''*'') rest;
                after = drop (Suc (length body)) rest
            in Some \<lparr>ident = takeWhile (\<lambda>x. x \<noteq> CHR '','') body, payload = frame,
                      encoding = Ascii, valid = (take 2 after = render_hex (xor_checksum body))\<rparr>)"

text \<open>
  Modelled from the spec: one step of the dispatcher (4.5), whose code is not among the
  sources. A message is handed to the registry only when it is valid and its identifier
  is enabled in the filter; an identifier absent from the filter is not dispatched.
\<close>

definition dispatch_message ::
  "('h \<Rightarrow> string \<Rightarrow> 's \<Rightarrow> 's) \<Rightarrow> (string \<rightharpoonup> bool) \<Rightarrow> (string \<times> 'h) list \<Rightarrow> decoded_message \<Rightarrow> 's \<Rightarrow> 's" where
  "dispatch_message run enabled cbs msg s =
     (if valid msg \<and> enabled (ident msg) = Some True
      then dispatch run (ident msg) (payload msg) cbs s
      else s)"

subsection \<open>Sequences of method calls\<close>

text \<open>
  The four methods of \<^verbatim>\<open>MinROSNode\<close> besides its constructor, and the state a call leaves
  behind whether it returned or threw. \<open>run_calls\<close> performs a list of calls in order.
\<close>

datatype call = Call_GetROSParams | Call_InitializeIO | Call_Subscribe | Call_Reconnect

fun state_of :: "outcome \<Rightarrow> node" where
  "state_of (Returned st) = st"
| "state_of (Threw e st) = st"

fun do_call :: "param_server \<Rightarrow> serial_env \<Rightarrow> call \<Rightarrow> node \<Rightarrow> node" where
  "do_call nh env Call_GetROSParams st = state_of (GetROSParams nh st)"
| "do_call nh env Call_InitializeIO st = state_of (InitializeIO env st)"
| "do_call nh env Call_Subscribe st = Subscribe nh st"
| "do_call nh env Call_Reconnect st = Reconnect env st"

definition run_calls :: "param_server \<Rightarrow> serial_env \<Rightarrow> call list \<Rightarrow> node \<Rightarrow> node" where
  "run_calls nh env cs st = foldl (\<lambda>s c. do_call nh env c s) st cs"

subsection \<open>Concrete surroundings\<close>

text \<open>
  Three serial layers and a parameter server for the concrete runs below: a device that
  never opens, one that always opens, one that opens at the very first attempt only,
  and a parameter server that stores nothing, so that every parameter takes its default.
\<close>

definition never_connects :: serial_env where
  "never_connects h port baud = False"

definition always_connects :: serial_env where
  "always_connects h port baud = True"


definition no_params :: param_server where
  "no_params = \<lparr>string_params = Map.empty, int_params = Map.empty, bool_params = Map.empty\<rparr>"

section \<open>The connection descriptor: what the pattern accepts\<close>

lemma is_digit_not_colon: "is_digit c \<Longrightarrow> c \<noteq> CHR '':''"
  by (auto simp: is_digit_def)

lemma match_host_port_found:
  assumes "host \<noteq> []" "port \<noteq> []" "list_all is_digit port"
  shows "length host \<le> n \<Longrightarrow> match_host_port n (host @ CHR '':'' # port) = Some (host, port)"
proof (induction n)
  case 0
  with assms show ?case by simp
next
  case (Suc n)
  show ?case
  proof (cases "Suc n = length host")
    case True
    then have d: "drop (Suc n) (host @ CHR '':'' # port) = CHR '':'' # port"
      and t: "take (Suc n) (host @ CHR '':'' # port) = host" by simp_all
    show ?thesis using assms(2,3) d t by simp
  next
    case False
    with Suc.prems have le: "length host \<le> n" by simp
    have d: "drop (Suc n) (host @ CHR '':'' # port) = drop (n - length host) port"
      using le by (simp add: Suc_diff_le)
    have "list_all is_digit (drop (n - length host) port)"
      using assms(3) by (auto simp: list_all_iff dest: in_set_dropD)
    then have skip: "\<And>c cs. drop (n - length host) port = c # cs \<Longrightarrow> c \<noteq> CHR '':''"
      by (auto dest: is_digit_not_colon)
    show ?thesis
      using Suc.IH [OF le] d skip by (simp split: list.split)
  qed
qed

lemma match_host_port_sound:
  "match_host_port n s = Some (host, port) \<Longrightarrow>
     s = host @ CHR '':'' # port \<and> host \<noteq> [] \<and> port \<noteq> [] \<and> list_all is_digit port"
proof (induction n)
  case 0
  then show ?case by simp
next
  case (Suc n)
  show ?case
  proof (cases "drop (Suc n) s")
    case Nil
    with Suc show ?thesis by simp
  next
    case (Cons c cs)
    show ?thesis
    proof (cases "c = CHR '':'' \<and> cs \<noteq> [] \<and> list_all is_digit cs")
      case True
      with Cons Suc.prems have hp: "host = take (Suc n) s" "port = cs" by simp_all
      have "s = take (Suc n) s @ drop (Suc n) s" by simp
      with Cons True hp have "s = host @ CHR '':'' # port" by simp
      moreover have "host \<noteq> []" using hp Cons by (cases s) auto
      ultimately show ?thesis using True hp by simp
    next
      case False
      with Cons Suc.prems have "match_host_port n s = Some (host, port)" by auto
      with Suc.IH show ?thesis by simp
    qed
  qed
qed

lemma strip_prefix_append: "strip_prefix p (p @ r) = Some r"
  by (simp add: strip_prefix_def)

lemma strip_prefix_Some: "strip_prefix p s = Some r \<Longrightarrow> s = p @ r"
proof -
  assume "strip_prefix p s = Some r"
  then have "take (length p) s = p" and "r = drop (length p) s"
    by (auto simp: strip_prefix_def split: if_splits)
  then show ?thesis by (metis append_take_drop_id)
qed

lemma strip_prefix_tcp_udp: "strip_prefix ''tcp://'' (''udp://'' @ r) = None"
  by (simp add: strip_prefix_def)

text \<open>Every string \<open>proto://host:port\<close> with a non-empty host and a port of digits matches.\<close>

lemma regex_match_network:
  assumes "proto = ''tcp'' \<or> proto = ''udp''" "host \<noteq> []" "port \<noteq> []" "list_all is_digit port"
  shows "regex_match (proto @ ''://'' @ host @ '':'' @ port) = Some (proto, host, port)"
proof -
  let ?r = "host @ CHR '':'' # port"
  have m: "match_host_port (length ?r) ?r = Some (host, port)"
    by (rule match_host_port_found [OF assms(2-4)]) simp
  from assms(1) show ?thesis
  proof
    assume p: "proto = ''tcp''"
    have "regex_match (''tcp://'' @ ?r) = Some (''tcp'', host, port)"
      unfolding regex_match_def strip_prefix_append using m by simp
    with p show ?thesis by simp
  next
    assume p: "proto = ''udp''"
    have "regex_match (''udp://'' @ ?r) = Some (''udp'', host, port)"
      unfolding regex_match_def strip_prefix_tcp_udp strip_prefix_append using m by simp
    with p show ?thesis by simp
  qed
qed

text \<open>Nothing else matches.\<close>

lemma regex_match_sound:
  assumes "regex_match s = Some (proto, host, port)"
  shows "(proto = ''tcp'' \<or> proto = ''udp'') \<and> s = proto @ ''://'' @ host @ '':'' @ port \<and>
         host \<noteq> [] \<and> port \<noteq> [] \<and> list_all is_digit port"
proof (cases "strip_prefix ''tcp://'' s")
  case (Some r)
  then have s: "s = ''tcp://'' @ r" by (rule strip_prefix_Some)
  from assms Some have "match_host_port (length r) r = Some (host, port) \<and> proto = ''tcp''"
    by (auto simp: regex_match_def)
  with match_host_port_sound [of "length r" r host port] s show ?thesis by simp
next
  case None
  note n1 = this
  show ?thesis
  proof (cases "strip_prefix ''udp://'' s")
    case (Some r)
    then have s: "s = ''udp://'' @ r" by (rule strip_prefix_Some)
    from assms Some n1 have "match_host_port (length r) r = Some (host, port) \<and> proto = ''udp''"
      by (auto simp: regex_match_def)
    with match_host_port_sound [of "length r" r host port] s show ?thesis by simp
  next
    case None
    with n1 assms show ?thesis by (simp add: regex_match_def)
  qed
qed

section \<open>The range check of the integer getter\<close>

lemma sint_lowest:
  "sint (- (2 ^ (LENGTH('a) - 1)) :: 'a::len word) = - (2 ^ (LENGTH('a) - 1))"
proof -
  have "(- (2 ^ (LENGTH('a) - 1)) :: 'a word) = word_of_int (- (2 ^ (LENGTH('a) - 1)))"
    by simp
  then have "sint (- (2 ^ (LENGTH('a) - 1)) :: 'a word) =
          signed_take_bit (LENGTH('a) - 1) (- (2 ^ (LENGTH('a) - 1)) :: int)"
    by (simp only: sint_sbintrunc')
  also have "\<dots> = - (2 ^ (LENGTH('a) - 1))"
    by (rule signed_take_bit_int_eq_self) simp_all
  finally show ?thesis .
qed

lemma sint_max:
  "sint (2 ^ (LENGTH('a) - 1) - 1 :: 'a::len word) = 2 ^ (LENGTH('a) - 1) - 1"
proof -
  have "(2 ^ (LENGTH('a) - 1) - 1 :: 'a word) = word_of_int (2 ^ (LENGTH('a) - 1) - 1)"
    by simp
  then have "sint (2 ^ (LENGTH('a) - 1) - 1 :: 'a word) =
          signed_take_bit (LENGTH('a) - 1) (2 ^ (LENGTH('a) - 1) - 1 :: int)"
    by (simp only: sint_sbintrunc')
  also have "\<dots> = 2 ^ (LENGTH('a) - 1) - 1"
    by (rule signed_take_bit_int_eq_self) simp_all
  finally show ?thesis .
qed

text \<open>No value of type \<^verbatim>\<open>U\<close> lies below \<^verbatim>\<open>U\<close>'s lowest value or above its maximum.\<close>

lemma not_less_lowest: "\<not> less_U s (v :: 'a::len word) (numeric_limits_lowest s)"
proof (cases s)
  case Signed
  have "sint (numeric_limits_lowest Signed :: 'a word) \<le> sint v"
    unfolding numeric_limits_lowest_def using sint_ge [of v] sint_lowest [where ?'a = 'a] by simp
  with Signed show ?thesis by (simp add: less_U_def word_sless_alt)
next
  case Unsigned
  then show ?thesis by (simp add: less_U_def numeric_limits_lowest_def)
qed

lemma not_max_less: "\<not> less_U s (numeric_limits_max s) (v :: 'a::len word)"
proof (cases s)
  case Signed
  have "sint v \<le> sint (numeric_limits_max Signed :: 'a word)"
    unfolding numeric_limits_max_def using sint_lt [of v] sint_max [where ?'a = 'a] by simp
  with Signed show ?thesis by (simp add: less_U_def word_sless_alt)
next
  case Unsigned
  have "v \<le> - 1" by simp
  with Unsigned show ?thesis by (simp add: less_U_def numeric_limits_max_def not_less)
qed

lemma checkRange_limits:
  "checkRange s (v :: 'a::len word) (numeric_limits_lowest s) (numeric_limits_max s) name = Inr ()"
  by (simp add: checkRange_def not_less_lowest not_max_less)

lemma GetROSInt_eq:
  "GetROSInt s nh key (u :: 'a::len word) =
     Inr (case int_params nh key of None \<Rightarrow> (False, u) | Some p \<Rightarrow> (True, scast p))"
  by (simp add: GetROSInt_def checkRange_limits split: option.split)

text \<open>The check is a real one: with bounds of its own choosing it does throw.\<close>

lemma checkRange_can_throw:
  "checkRange Unsigned (4294967295 :: 32 word) 0 115200 ''serial/baudrate'' =
     Inl (RuntimeError ''Invalid settings: serial/baudrate must be in range [0, 115200].'')"
  by (simp add: checkRange_def less_U_def show_U_def show_nat.simps digit_char_def)

lemma GetROSParams_eq:
  "GetROSParams nh st =
     Returned (st\<lparr>device := param (string_params nh) ''device'' ''/dev/ttyACM0'',
                  baudrate := (case int_params nh ''serial/baudrate'' of None \<Rightarrow> 115200 | Some p \<Rightarrow> p)\<rparr>)"
  by (simp add: GetROSParams_def GetROSInt_default_def GetROSInt_eq Let_def split: option.split)

lemma uint32_wrap: "unat (p :: 32 word) = nat (sint p mod 2 ^ 32)"
proof -
  have u: "uint p = sint p mod 2 ^ 32"
    using uint_sint [of p] by (simp add: take_bit_eq_mod)
  show ?thesis
    unfolding unat_eq_nat_uint u ..
qed

section \<open>The node's methods at work\<close>

text \<open>With a descriptor that the pattern does not match, the serial branch runs.\<close>

lemma InitializeIO_serial:
  "regex_match (device st) = None \<Longrightarrow>
     InitializeIO env st =
       Returned (st\<lparr>events := events st @
         [SerialInit (device st) (baudrate st) (env (events st) (device st) (baudrate st))]\<rparr>)"
  by (simp add: InitializeIO_def InitializeSerial_def Let_def)

lemma regex_dev: "regex_match ''/dev/ttyACM0'' = None"
  by (simp add: regex_match_def strip_prefix_def)

lemma regex_noport: "regex_match ''udp://192.168.3.1'' = None"
  by (simp add: regex_match_def strip_prefix_def is_digit_def)

text \<open>The timer callback in one equation.\<close>

lemma Reconnect_eq:
  "Reconnect env st =
     (let ok = env (events st) (device st) (baudrate st);
          ev = events st @ [SerialInit (device st) (baudrate st) ok]
      in if ok \<or> connected st
         then st\<lparr>events := ev @ [TimerStop], connected := True,
                 reconnect_timer := \<lparr>started = False\<rparr>\<rparr>
         else st\<lparr>events := ev\<rparr>)"
  by (cases "reconnect_timer st") (auto simp: Reconnect_def InitializeSerial_def Let_def stop_def)

lemma connected_Reconnect:
  "connected (Reconnect env st) = (connected st \<or> env (events st) (device st) (baudrate st))"
  by (auto simp: Reconnect_eq Let_def)

lemma connected_InitializeIO: "connected (state_of (InitializeIO env st)) = connected st"
  by (simp add: InitializeIO_def InitializeSerial_def Let_def split: option.split prod.split)

lemma connected_Subscribe: "connected (Subscribe nh st) = connected st"
  by (simp add: Subscribe_def Let_def)

lemma connected_GetROSParams: "connected (state_of (GetROSParams nh st)) = connected st"
  by (simp add: GetROSParams_eq)

lemma connected_do_call:
  "connected (do_call nh env c st) =
     (connected st \<or> (c = Call_Reconnect \<and> env (events st) (device st) (baudrate st)))"
  by (cases c)
     (simp_all add: connected_Reconnect connected_InitializeIO connected_Subscribe connected_GetROSParams)

lemma connected_run_calls: "connected st \<Longrightarrow> connected (run_calls nh env cs st)"
  unfolding run_calls_def
  by (induction cs arbitrary: st) (simp_all add: connected_do_call)

lemma Reconnect_when_connected:
  assumes "connected st"
  shows "Reconnect env st =
     st\<lparr>events := events st @
            [SerialInit (device st) (baudrate st) (env (events st) (device st) (baudrate st)), TimerStop],
          connected := True, reconnect_timer := \<lparr>started = False\<rparr>\<rparr>"
  using assms by (simp add: Reconnect_eq Let_def)

text \<open>A timer that is not started never calls its callback.\<close>

lemma timer_fire_stopped: "\<not> started (reconnect_timer st) \<Longrightarrow> (timer_fire env ^^ n) st = st"
  by (induction n) (simp_all add: timer_fire_def)

text \<open>A running timer whose attempts all fail makes one attempt per expiry and keeps running.\<close>

lemma timer_fire_failing:
  assumes "started (reconnect_timer st)" and "\<not> connected st"
    and "\<forall>h. \<not> env h (device st) (baudrate st)"
  shows "(timer_fire env ^^ n) st =
           st\<lparr>events := events st @ replicate n (SerialInit (device st) (baudrate st) False)\<rparr>"
proof (induction n)
  case 0
  show ?case by simp
next
  case (Suc n)
  let ?s = "st\<lparr>events := events st @ replicate n (SerialInit (device st) (baudrate st) False)\<rparr>"
  have "timer_fire env ?s = ?s\<lparr>events := events ?s @ [SerialInit (device st) (baudrate st) False]\<rparr>"
    using assms by (simp add: timer_fire_def Reconnect_eq Let_def)
  then show ?case
    using Suc by (simp add: replicate_append_same)
qed

text \<open>
  For a descriptor that the pattern does not match, \<^verbatim>\<open>InitializeIO\<close> makes exactly one
  connect attempt, drops its result and returns; it leaves the reconnect timer as it
  found it, so that with the timer not started no expiry adds an attempt. Where the
  timer does run, each expiry repeats the attempt through \<^verbatim>\<open>Reconnect\<close>, and while every
  attempt fails the timer keeps running.
\<close>

lemma single_attempt_no_timer:
  assumes "regex_match (device st) = None"
  shows "InitializeIO env st =
           Returned (st\<lparr>events := events st @
             [SerialInit (device st) (baudrate st) (env (events st) (device st) (baudrate st))]\<rparr>)
       \<and> reconnect_timer (state_of (InitializeIO env st)) = reconnect_timer st
       \<and> (\<not> started (reconnect_timer st) \<longrightarrow>
            (timer_fire env ^^ n) (state_of (InitializeIO env st)) = state_of (InitializeIO env st))
       \<and> (started (reconnect_timer st) \<and> \<not> connected st \<and> (\<forall>h. \<not> env h (device st) (baudrate st)) \<longrightarrow>
            (timer_fire env ^^ n) st =
              st\<lparr>events := events st @ replicate n (SerialInit (device st) (baudrate st) False)\<rparr>)"
proof (intro conjI impI)
  show io: "InitializeIO env st =
           Returned (st\<lparr>events := events st @
             [SerialInit (device st) (baudrate st) (env (events st) (device st) (baudrate st))]\<rparr>)"
    using assms by (rule InitializeIO_serial)
  show "reconnect_timer (state_of (InitializeIO env st)) = reconnect_timer st"
    by (simp add: io)
  show "(timer_fire env ^^ n) (state_of (InitializeIO env st)) = state_of (InitializeIO env st)"
    if "\<not> started (reconnect_timer st)"
    by (rule timer_fire_stopped) (simp add: io that)
  show "(timer_fire env ^^ n) st =
              st\<lparr>events := events st @ replicate n (SerialInit (device st) (baudrate st) False)\<rparr>"
    if "started (reconnect_timer st) \<and> \<not> connected st \<and> (\<forall>h. \<not> env h (device st) (baudrate st))"
    using that by (intro timer_fire_failing) simp_all
qed

lemma single_attempt_no_timer_example:
  "InitializeIO (\<lambda>h p b. False) ((fresh_node 9600 True)\<lparr>device := ''/dev/ttyUSB0''\<rparr>) =
     Returned ((fresh_node 9600 True)\<lparr>device := ''/dev/ttyUSB0'',
                 events := [SerialInit ''/dev/ttyUSB0'' 9600 False]\<rparr>)
   \<and> (timer_fire (\<lambda>h p b. False) ^^ 2)
        (state_of (InitializeIO (\<lambda>h p b. False) ((fresh_node 9600 True)\<lparr>device := ''/dev/ttyUSB0''\<rparr>))) =
      state_of (InitializeIO (\<lambda>h p b. False) ((fresh_node 9600 True)\<lparr>device := ''/dev/ttyUSB0''\<rparr>))
   \<and> (timer_fire (\<lambda>h p b. False) ^^ 2)
        ((fresh_node 9600 True)\<lparr>device := ''/dev/ttyUSB0'', reconnect_timer := \<lparr>started = True\<rparr>\<rparr>) =
      (fresh_node 9600 True)\<lparr>device := ''/dev/ttyUSB0'', reconnect_timer := \<lparr>started = True\<rparr>,
         events := [SerialInit ''/dev/ttyUSB0'' 9600 False, SerialInit ''/dev/ttyUSB0'' 9600 False]\<rparr>"
  using single_attempt_no_timer [of "(fresh_node 9600 True)\<lparr>device := ''/dev/ttyUSB0''\<rparr>"
      "\<lambda>h p b. False" 2]
    single_attempt_no_timer [of
      "(fresh_node 9600 True)\<lparr>device := ''/dev/ttyUSB0'', reconnect_timer := \<lparr>started = True\<rparr>\<rparr>"
      "\<lambda>h p b. False" 2]
  by (simp add: regex_match_def strip_prefix_def fresh_node_def timer_fire_def numeral_2_eq_2
        Reconnect_eq)

text \<open>
  The flag \<^verbatim>\<open>connected_\<close> is false in a fresh node. A method call leaves it true exactly
  when it was true before or the call is the timer callback and its connect attempt
  succeeded, so no sequence of calls resets it. Once an attempt of the timer callback
  has succeeded, every later invocation of the callback, after any calls in between,
  stops the reconnect timer whatever the result of its own attempt.
\<close>

lemma connected_flag_monotone:
  "\<not> connected (fresh_node b g)
   \<and> connected (do_call nh env c st) =
       (connected st \<or> (c = Call_Reconnect \<and> env (events st) (device st) (baudrate st)))
   \<and> (connected st \<longrightarrow> connected (run_calls nh env cs st))
   \<and> (env (events st) (device st) (baudrate st) \<longrightarrow>
        \<not> started (reconnect_timer (Reconnect env (run_calls nh env cs (Reconnect env st))))
        \<and> events (Reconnect env (run_calls nh env cs (Reconnect env st))) =
            events (run_calls nh env cs (Reconnect env st)) @
              [SerialInit (device (run_calls nh env cs (Reconnect env st)))
                 (baudrate (run_calls nh env cs (Reconnect env st)))
                 (env (events (run_calls nh env cs (Reconnect env st)))
                    (device (run_calls nh env cs (Reconnect env st)))
                    (baudrate (run_calls nh env cs (Reconnect env st)))),
               TimerStop])"
proof (intro conjI impI)
  show "\<not> connected (fresh_node b g)" by (simp add: fresh_node_def)
  show "connected (do_call nh env c st) =
       (connected st \<or> (c = Call_Reconnect \<and> env (events st) (device st) (baudrate st)))"
    by (rule connected_do_call)
  show "connected (run_calls nh env cs st)" if "connected st"
    using that by (rule connected_run_calls)
next
  assume ok: "env (events st) (device st) (baudrate st)"
  let ?s = "run_calls nh env cs (Reconnect env st)"
  have "connected (Reconnect env st)" using ok by (simp add: connected_Reconnect)
  then have c: "connected ?s" by (rule connected_run_calls)
  show "\<not> started (reconnect_timer (Reconnect env ?s))"
    by (simp add: Reconnect_when_connected [OF c])
  show "events (Reconnect env ?s) =
            events ?s @ [SerialInit (device ?s) (baudrate ?s) (env (events ?s) (device ?s) (baudrate ?s)),
               TimerStop]"
    by (simp add: Reconnect_when_connected [OF c])
qed

lemma connected_flag_monotone_example:
  "\<not> started (reconnect_timer (Reconnect (\<lambda>h p b. h = [])
      (run_calls \<lparr>string_params = Map.empty, int_params = Map.empty, bool_params = Map.empty\<rparr>
         (\<lambda>h p b. h = []) [Call_Reconnect, Call_InitializeIO]
         (Reconnect (\<lambda>h p b. h = [])
            ((fresh_node 115200 True)\<lparr>device := ''/dev/ttyACM0'', reconnect_timer := \<lparr>started = True\<rparr>\<rparr>)))))
   \<and> events (Reconnect (\<lambda>h p b. h = [])
      (run_calls \<lparr>string_params = Map.empty, int_params = Map.empty, bool_params = Map.empty\<rparr>
         (\<lambda>h p b. h = []) [Call_Reconnect, Call_InitializeIO]
         (Reconnect (\<lambda>h p b. h = [])
            ((fresh_node 115200 True)\<lparr>device := ''/dev/ttyACM0'', reconnect_timer := \<lparr>started = True\<rparr>\<rparr>)))) =
      [SerialInit ''/dev/ttyACM0'' 115200 True, TimerStop,
       SerialInit ''/dev/ttyACM0'' 115200 False, TimerStop,
       SerialInit ''/dev/ttyACM0'' 115200 False,
       SerialInit ''/dev/ttyACM0'' 115200 False, TimerStop]"
  using connected_flag_monotone [of 115200 True
      "\<lparr>string_params = Map.empty, int_params = Map.empty, bool_params = Map.empty\<rparr>"
      "\<lambda>h p b. h = []" Call_Reconnect
      "(fresh_node 115200 True)\<lparr>device := ''/dev/ttyACM0'', reconnect_timer := \<lparr>started = True\<rparr>\<rparr>"
      "[Call_Reconnect, Call_InitializeIO]"]
  by (simp add: fresh_node_def run_calls_def Reconnect_eq Let_def InitializeIO_def regex_dev
        InitializeSerial_def)

section \<open>Publishing: the publisher is bound once\<close>

lemma publish_all_bound:
  "publishers r ty = Some t0 \<Longrightarrow>
     publish_all ty calls r = r\<lparr>published := published r @ map (\<lambda>(m, t). (ty, t0, m)) calls\<rparr>"
proof (induction calls arbitrary: r)
  case Nil
  then show ?case by (simp add: publish_all_def)
next
  case (Cons c calls)
  obtain m t where c: "c = (m, t)" by (cases c)
  let ?r = "publish ty m t r"
  have p: "?r = r\<lparr>published := published r @ [(ty, t0, m)]\<rparr>"
    using Cons.prems by (simp add: publish_def)
  then have "publishers ?r ty = Some t0" using Cons.prems by simp
  from Cons.IH [OF this] have "publish_all ty calls ?r =
      ?r\<lparr>published := published ?r @ map (\<lambda>(m, t). (ty, t0, m)) calls\<rparr>" .
  moreover have "publish_all ty (c # calls) r = publish_all ty calls ?r"
    by (simp add: publish_all_def c)
  ultimately show ?case by (simp add: p c)
qed

section \<open>The registry: a sorted multimap that keeps insertion order within a key\<close>

lemma set_insert_handler: "set (insert_handler k h cbs) = insert (k, h) (set cbs)"
  by (induction k h cbs rule: insert_handler.induct) auto

lemma sorted_insert_handler:
  "sorted (map fst cbs) \<Longrightarrow> sorted (map fst (insert_handler k h cbs))"
proof (induction cbs)
  case Nil
  show ?case by simp
next
  case (Cons c cbs)
  obtain k1 h1 where c: "c = (k1, h1)" by (cases c)
  from Cons.prems c have below: "\<forall>x\<in>set cbs. k1 \<le> fst x" and tl: "sorted (map fst cbs)"
    by auto
  show ?case
  proof (cases "k < k1")
    case True
    then have "\<forall>x\<in>set cbs. k \<le> fst x" using below by (auto intro: order_trans less_imp_le)
    with True below tl c show ?thesis by (auto simp: less_imp_le)
  next
    case False
    then have "k1 \<le> k" by simp
    with below have "\<forall>x\<in>set (insert_handler k h cbs). k1 \<le> fst x"
      by (auto simp: set_insert_handler)
    with False c Cons.IH [OF tl] show ?thesis by auto
  qed
qed

text \<open>An insertion adds its entry behind the entries of the same key and disturbs no other key.\<close>

lemma filter_insert_handler:
  "sorted (map fst cbs) \<Longrightarrow>
     filter (\<lambda>(k', h'). k' = k) (insert_handler k0 h cbs) =
       filter (\<lambda>(k', h'). k' = k) cbs @ (if k = k0 then [(k0, h)] else [])"
proof (induction cbs)
  case Nil
  show ?case by auto
next
  case (Cons c cbs)
  obtain k1 h1 where c: "c = (k1, h1)" by (cases c)
  show ?case
  proof (cases "k0 < k1")
    case True
    have "filter (\<lambda>(k', h'). k' = k0) (c # cbs) = []"
      using Cons.prems True c by (auto simp: filter_empty_conv)
    with True c show ?thesis by auto
  next
    case False
    with Cons c show ?thesis by auto
  qed
qed

text \<open>In a sorted multimap the range of a key holds exactly the entries of that key.\<close>

lemma equal_range_sorted:
  "sorted (map fst cbs) \<Longrightarrow> equal_range k cbs = filter (\<lambda>(k', h'). k' = k) cbs"
proof (induction cbs)
  case Nil
  show ?case by (simp add: equal_range_def)
next
  case (Cons c cbs)
  obtain k1 h1 where c: "c = (k1, h1)" by (cases c)
  from Cons have ih: "equal_range k cbs = filter (\<lambda>(k', h'). k' = k) cbs" by simp
  consider "k1 < k" | "k1 = k" | "k < k1" by (metis less_linear)
  then show ?case
  proof cases
    case 1
    then show ?thesis using ih c by (simp add: equal_range_def)
  next
    case 2
    have "\<forall>x\<in>set cbs. k \<le> fst x" using Cons.prems c 2 by auto
    then have d: "dropWhile (\<lambda>(k', h). k' < k) cbs = cbs"
      by (cases cbs) (auto simp: not_less)
    show ?thesis using ih c 2 d by (simp add: equal_range_def)
  next
    case 3
    have "\<forall>x\<in>set cbs. k < fst x" using Cons.prems c 3 by auto
    then have "filter (\<lambda>(k', h'). k' = k) cbs = []"
      by (auto simp: filter_empty_conv)
    then show ?thesis using c 3 by (auto simp: equal_range_def)
  qed
qed

lemma register_all_snoc:
  "register_all (regs @ [(k, h)]) cbs = insert_handler k h (register_all regs cbs)"
  by (simp add: register_all_def)

lemma sorted_register_all: "sorted (map fst (register_all regs []))"
  by (induction regs rule: rev_induct)
     (auto simp: register_all_snoc sorted_insert_handler, simp add: register_all_def)

lemma filter_register_all:
  "filter (\<lambda>(k', h'). k' = k) (register_all regs []) = filter (\<lambda>(k', h'). k' = k) regs"
proof (induction regs rule: rev_induct)
  case Nil
  show ?case by (simp add: register_all_def)
next
  case (snoc r regs)
  obtain k0 h where r: "r = (k0, h)" by (cases r)
  show ?case
    using snoc sorted_register_all [of regs]
    by (simp add: r register_all_snoc filter_insert_handler)
qed

lemma equal_range_register_all:
  "equal_range k (register_all regs []) = filter (\<lambda>(k', h'). k' = k) regs"
  by (simp add: equal_range_sorted sorted_register_all filter_register_all)

lemma foldl_log: "foldl (\<lambda>log h. log @ [(h, p)]) l hs = l @ map (\<lambda>h. (h, p)) hs"
  by (induction hs arbitrary: l) simp_all

text \<open>The example of the spec: two handlers for one identifier, another identifier in between.\<close>

lemma two_handlers:
  "dispatch (\<lambda>h p log. log @ [(h, p)]) ''GPGGA'' ''msg''
     (register_all [(''GPGGA'', ''first''), (''GPGSV'', ''other''), (''GPGGA'', ''second'')] []) [] =
   [(''first'', ''msg''), (''second'', ''msg'')]"
  by (simp add: dispatch_def register_all_def equal_range_def)

lemma Subscribe_eq:
  "Subscribe nh st =
     (if bool_params nh ''publish/gpgga'' = Some False
      then st\<lparr>publish_gpgga := False\<rparr>
      else st\<lparr>publish_gpgga := True,
              callbacks := insert_handler ''$GPGGA'' (Bind_publish ''nmea_msgs::Gpgga'' ''/gpgga'') (callbacks st)\<rparr>)"
  by (auto simp: Subscribe_def param_def Let_def split: option.split)

section \<open>The checksum of an ASCII frame\<close>

lemma unat_of_char: "unat (of_char c :: 8 word) = of_char c"
proof -
  have "(of_char c :: 8 word) = of_nat (of_char c)" by (simp only: of_nat_of_char)
  then have "unat (of_char c :: 8 word) = (of_char c :: nat) mod 256"
    by (simp only: unat_of_nat) simp
  then show ?thesis by simp
qed

lemma of_char_word_inj: "(of_char c :: 8 word) = of_char d \<Longrightarrow> c = d"
proof -
  assume "(of_char c :: 8 word) = of_char d"
  then have "unat (of_char c :: 8 word) = unat (of_char d :: 8 word)" by simp
  then have "(of_char c :: nat) = of_char d" by (simp only: unat_of_char)
  then show "c = d" by simp
qed

lemma foldl_xor:
  "foldl (\<lambda>acc c. acc XOR of_char c) a xs = a XOR foldl (\<lambda>acc c. acc XOR of_char c) (0 :: 8 word) xs"
proof (induction xs arbitrary: a)
  case Nil
  show ?case by simp
next
  case (Cons x xs)
  show ?case
    using Cons [of "a XOR of_char x"] Cons [of "of_char x"] by (simp add: xor.assoc)
qed

lemma xor_checksum_Cons: "xor_checksum (c # xs) = of_char c XOR xor_checksum xs"
  unfolding xor_checksum_def using foldl_xor [of "of_char c" xs] by simp

lemma xor_checksum_append: "xor_checksum (xs @ ys) = xor_checksum xs XOR xor_checksum ys"
  by (induction xs) (simp_all add: xor_checksum_Cons xor.assoc, simp add: xor_checksum_def)

lemma xor_cancel_left: "(a :: 8 word) XOR b = a XOR c \<Longrightarrow> b = c"
proof -
  assume "a XOR b = a XOR c"
  then have "a XOR (a XOR b) = a XOR (a XOR c)" by simp
  then show ?thesis by (simp add: xor.assoc [symmetric])
qed

text \<open>Changing one byte of the body changes the checksum.\<close>

lemma flipped_byte_changes_checksum:
  assumes "c \<noteq> d"
  shows "xor_checksum (xs @ c # ys) \<noteq> xor_checksum (xs @ d # ys)"
proof
  assume "xor_checksum (xs @ c # ys) = xor_checksum (xs @ d # ys)"
  then have "xor_checksum xs XOR (of_char c XOR xor_checksum ys) =
             xor_checksum xs XOR (of_char d XOR xor_checksum ys)"
    by (simp add: xor_checksum_append xor_checksum_Cons)
  then have "(of_char c :: 8 word) XOR xor_checksum ys = of_char d XOR xor_checksum ys"
    by (rule xor_cancel_left)
  then have "xor_checksum ys XOR (of_char c :: 8 word) = xor_checksum ys XOR of_char d"
    by (simp add: xor.commute)
  then have "(of_char c :: 8 word) = of_char d" by (rule xor_cancel_left)
  then have "c = d" by (rule of_char_word_inj)
  with assms show False by simp
qed

lemma hex_digit_inj: "a < 16 \<Longrightarrow> b < 16 \<Longrightarrow> hex_digit a = hex_digit b \<Longrightarrow> a = b"
proof -
  assume a: "a < 16" and b: "b < 16" and e: "hex_digit a = hex_digit b"
  have d: "distinct ''0123456789ABCDEF''" by simp
  have "''0123456789ABCDEF'' ! a = ''0123456789ABCDEF'' ! b"
    using e a b by (simp add: hex_digit_def)
  with d a b show "a = b" by (simp add: nth_eq_iff_index_eq)
qed

text \<open>Two different checksums are rendered differently.\<close>

lemma render_hex_inj: "render_hex a = render_hex b \<Longrightarrow> a = b"
proof -
  assume "render_hex a = render_hex b"
  then have h: "hex_digit (unat a div 16) = hex_digit (unat b div 16)"
    and l: "hex_digit (unat a mod 16) = hex_digit (unat b mod 16)"
    by (simp_all add: render_hex_def)
  have la: "unat a < 256" and lb: "unat b < 256"
    using unsigned_less [of a, where ?'a = nat] unsigned_less [of b, where ?'a = nat] by simp_all
  have "unat a div 16 = unat b div 16"
    using h la lb by (intro hex_digit_inj) simp_all
  moreover have "unat a mod 16 = unat b mod 16"
    using l by (intro hex_digit_inj) simp_all
  ultimately have "unat a = unat b"
    by (metis div_mult_mod_eq)
  then show "a = b" by (rule unsigned_word_eqI)
qed

text \<open>
  The checksum without reference to the exclusive-or of words: bit \<open>i\<close> of it is set
  exactly when an odd number of bytes of the body have their bit \<open>i\<close> set.
\<close>

lemma xor_checksum_parity:
  "bit (xor_checksum body) i = odd (length (filter (\<lambda>c. bit (of_char c :: 8 word) i) body))"
proof (induction body)
  case Nil
  show ?case by (simp add: xor_checksum_def)
next
  case (Cons c cs)
  show ?case
    using Cons by (simp add: xor_checksum_Cons bit_xor_iff)
qed

lemma hex_value_hex_digit: "d < 16 \<Longrightarrow> hex_value (hex_digit d) = d"
proof -
  assume "d < 16"
  then consider "d = 0" | "d = 1" | "d = 2" | "d = 3" | "d = 4" | "d = 5" | "d = 6" | "d = 7"
    | "d = 8" | "d = 9" | "d = 10" | "d = 11" | "d = 12" | "d = 13" | "d = 14" | "d = 15"
    by atomize_elim arith
  then show ?thesis
    by cases (simp_all add: hex_value_def hex_digit_def)
qed

lemma hex_digit_upper: "hex_digit d \<in> set ''0123456789ABCDEF''"
proof -
  have "d mod 16 < length ''0123456789ABCDEF''" by simp
  then have "''0123456789ABCDEF'' ! (d mod 16) \<in> set ''0123456789ABCDEF''"
    by (rule nth_mem)
  then show ?thesis by (simp only: hex_digit_def)
qed

text \<open>
  The rendering is two uppercase hexadecimal digits that read back as the byte, the
  high nibble first.
\<close>

lemma render_hex_spec:
  "length (render_hex b) = 2
   \<and> list_all (\<lambda>c. c \<in> set ''0123456789ABCDEF'') (render_hex b)
   \<and> 16 * hex_value (render_hex b ! 0) + hex_value (render_hex b ! 1) = unat b"
proof -
  have lt: "unat b < 256"
    using unsigned_less [of b, where ?'a = nat] by simp
  then have h: "hex_value (hex_digit (unat b div 16)) = unat b div 16"
    by (intro hex_value_hex_digit) simp
  have l: "hex_value (hex_digit (unat b mod 16)) = unat b mod 16"
    by (intro hex_value_hex_digit) simp
  have u: "hex_digit (unat b div 16) \<in> set ''0123456789ABCDEF''"
    "hex_digit (unat b mod 16) \<in> set ''0123456789ABCDEF''"
    by (rule hex_digit_upper)+
  have "16 * (unat b div 16) + unat b mod 16 = unat b" by simp
  with h l u show ?thesis
    unfolding render_hex_def by (simp del: set_simps list.set)
qed

lemma takeWhile_stop: "c \<notin> set xs \<Longrightarrow> takeWhile (\<lambda>x. x \<noteq> c) (xs @ c # ys) = xs"
  by (induction xs) auto

text \<open>What the decoder yields for a frame \<open>$ body * c1 c2\<close>.\<close>

lemma decode_ascii_frame:
  assumes "CHR ''*'' \<notin> set body"
  shows "decode_ascii (CHR ''$'' # body @ CHR ''*'' # c1 # c2 # rest) =
     Some \<lparr>ident = takeWhile (\<lambda>x. x \<noteq> CHR '','') body,
           payload = CHR ''$'' # body @ CHR ''*'' # c1 # c2 # rest,
           encoding = Ascii, valid = ([c1, c2] = render_hex (xor_checksum body))\<rparr>"
proof -
  have t: "takeWhile (\<lambda>x. x \<noteq> CHR ''*'') (body @ CHR ''*'' # c1 # c2 # rest) = body"
    using assms by (rule takeWhile_stop)
  show ?thesis
    by (simp add: decode_ascii_def t Let_def)
qed

text \<open>
  The second example of the spec: a frame with a correct checksum is valid, and the same
  frame with one byte of its body changed, the checksum left as it was, is not.
\<close>

lemma flipped_byte_is_invalid:
  assumes "CHR ''*'' \<notin> set (xs @ c # ys)" and "CHR ''*'' \<notin> set (xs @ d # ys)" and "c \<noteq> d"
    and "decode_ascii (CHR ''$'' # (xs @ c # ys) @ CHR ''*'' # c1 # c2 # rest) = Some good"
    and "valid good"
    and "decode_ascii (CHR ''$'' # (xs @ d # ys) @ CHR ''*'' # c1 # c2 # rest) = Some bad"
  shows "\<not> valid bad"
proof
  assume "valid bad"
  with decode_ascii_frame [OF assms(2), of c1 c2 rest] assms(6)
  have "[c1, c2] = render_hex (xor_checksum (xs @ d # ys))"
    by auto
  moreover from decode_ascii_frame [OF assms(1), of c1 c2 rest] assms(4,5)
  have "[c1, c2] = render_hex (xor_checksum (xs @ c # ys))"
    by auto
  ultimately have "xor_checksum (xs @ c # ys) = xor_checksum (xs @ d # ys)"
    by (intro render_hex_inj) simp
  with flipped_byte_changes_checksum [OF assms(3)] show False by simp
qed

lemma gpgga_frame_valid:
  "decode_ascii ''$GPGGA,092750.000,5321.6802,N,00630.3372,W,1,8,1.03,61.7,M,55.2,M,,*76'' =
     Some \<lparr>ident = ''GPGGA'',
           payload = ''$GPGGA,092750.000,5321.6802,N,00630.3372,W,1,8,1.03,61.7,M,55.2,M,,*76'',
           encoding = Ascii, valid = True\<rparr>"
  by (simp add: decode_ascii_def render_hex_def xor_checksum_def hex_digit_def)

section \<open>The claims\<close>

subsection \<open>C1: an unsupported protocol is a fatal error raised before any connection attempt\<close>

text \<open>
  Claim C1. For every descriptor \<open>proto://host:port\<close> (a non-empty host, a port of one or
  more digits) whose protocol token is recognised but is not \<open>tcp\<close>, that is \<open>udp\<close>,
  \<^verbatim>\<open>InitializeIO\<close> throws \<^verbatim>\<open>std::runtime_error("Protocol 'udp' is unsupported")\<close>. The state
  carried by the exception is the state on entry: the event log has gained neither a
  call of \<^verbatim>\<open>IO.InitializeSerial\<close> nor a timer operation, and the timer is untouched. The
  constructor, given such a descriptor as the parameter \<^verbatim>\<open>device\<close>, ends with the same
  exception right after the parameters were read: nothing catches it, there is no retry,
  and \<^verbatim>\<open>Subscribe\<close> is never reached.
\<close>

theorem unsupported_protocol_is_fatal:
  assumes "proto = ''tcp'' \<or> proto = ''udp''" and "proto \<noteq> ''tcp''"
    and "host \<noteq> []" and "port \<noteq> []" and "list_all is_digit port"
    and "device st = proto @ ''://'' @ host @ '':'' @ port"
    and "string_params nh ''device'' = Some (proto @ ''://'' @ host @ '':'' @ port)"
  shows "InitializeIO env st =
           Threw (RuntimeError (''Protocol '' @ [CHR 0x27] @ proto @ [CHR 0x27] @ '' is unsupported'')) st
       \<and> MinROSNode nh env st0 =
           Threw (RuntimeError (''Protocol '' @ [CHR 0x27] @ proto @ [CHR 0x27] @ '' is unsupported''))
             (st0\<lparr>device := proto @ ''://'' @ host @ '':'' @ port,
                  baudrate := (case int_params nh ''serial/baudrate'' of None \<Rightarrow> 115200 | Some p \<Rightarrow> p)\<rparr>)"
proof -
  have m: "regex_match (proto @ ''://'' @ host @ '':'' @ port) = Some (proto, host, port)"
    by (rule regex_match_network [OF assms(1,3,4,5)])
  have io: "\<And>s. device s = proto @ ''://'' @ host @ '':'' @ port \<Longrightarrow> InitializeIO env s =
           Threw (RuntimeError (''Protocol '' @ [CHR 0x27] @ proto @ [CHR 0x27] @ '' is unsupported'')) s"
    using assms(2) m by (simp add: InitializeIO_def)
  show ?thesis
    using io [OF assms(6)] io [of "st0\<lparr>device := proto @ ''://'' @ host @ '':'' @ port,
                  baudrate := (case int_params nh ''serial/baudrate'' of None \<Rightarrow> 115200 | Some p \<Rightarrow> p)\<rparr>"]
      assms(7)
    by (simp add: MinROSNode_def GetROSParams_eq param_def)
qed

theorem unsupported_protocol_is_fatal_witness:
  "InitializeIO (\<lambda>h p b. True) ((fresh_node 115200 True)\<lparr>device := ''udp://192.168.3.1:28784''\<rparr>) =
     Threw (RuntimeError (''Protocol '' @ [CHR 0x27] @ ''udp'' @ [CHR 0x27] @ '' is unsupported''))
       ((fresh_node 115200 True)\<lparr>device := ''udp://192.168.3.1:28784''\<rparr>)
   \<and> MinROSNode \<lparr>string_params = [''device'' \<mapsto> ''udp://192.168.3.1:28784''], int_params = Map.empty,
                  bool_params = Map.empty\<rparr> (\<lambda>h p b. True) (fresh_node 0 False) =
     Threw (RuntimeError (''Protocol '' @ [CHR 0x27] @ ''udp'' @ [CHR 0x27] @ '' is unsupported''))
       ((fresh_node 0 False)\<lparr>device := ''udp://192.168.3.1:28784'', baudrate := 115200\<rparr>)"
  using unsupported_protocol_is_fatal [of "''udp''" "''192.168.3.1''" "''28784''"
      "(fresh_node 115200 True)\<lparr>device := ''udp://192.168.3.1:28784''\<rparr>"
      "\<lparr>string_params = [''device'' \<mapsto> ''udp://192.168.3.1:28784''], int_params = Map.empty,
                  bool_params = Map.empty\<rparr>" "\<lambda>h p b. True" "fresh_node 0 False"]
  by (simp add: is_digit_def)

subsection \<open>C2: registering appends, and dispatch reaches every handler in order\<close>

text \<open>
  Claim C2. Let any sequence of registrations be made on an empty registry. For every
  identifier, the registry then holds as many handlers for it as the sequence has
  registrations for it, and these are the registered handlers in registration order;
  one more registration for the identifier puts its handler behind them and removes
  none; dispatching one message for the identifier runs exactly these handlers, once
  each and in that order, whatever running a handler does. With a handler that only
  records its call, the record is the list of the registered handlers, each with the
  message.
\<close>

theorem registration_appends:
  "count_handlers k (register_all regs []) = length (filter (\<lambda>(k', h). k' = k) regs)
   \<and> map snd (equal_range k (register_all regs [])) = map snd (filter (\<lambda>(k', h). k' = k) regs)
   \<and> map snd (equal_range k (insert_handler k h (register_all regs []))) =
       map snd (equal_range k (register_all regs [])) @ [h]
   \<and> dispatch run k p (register_all regs []) s =
       foldl (\<lambda>s' h. run h p s') s (map snd (filter (\<lambda>(k', h). k' = k) regs))
   \<and> dispatch (\<lambda>h p log. log @ [(h, p)]) k p (register_all regs []) [] =
       map (\<lambda>h. (h, p)) (map snd (filter (\<lambda>(k', h). k' = k) regs))"
proof (intro conjI)
  show "count_handlers k (register_all regs []) = length (filter (\<lambda>(k', h). k' = k) regs)"
    by (simp add: count_handlers_def equal_range_register_all)
  show "map snd (equal_range k (register_all regs [])) = map snd (filter (\<lambda>(k', h). k' = k) regs)"
    by (simp add: equal_range_register_all)
  have "insert_handler k h (register_all regs []) = register_all (regs @ [(k, h)]) []"
    by (simp add: register_all_snoc)
  then show "map snd (equal_range k (insert_handler k h (register_all regs []))) =
       map snd (equal_range k (register_all regs [])) @ [h]"
    by (simp only: equal_range_register_all) simp
  show "dispatch run k p (register_all regs []) s =
       foldl (\<lambda>s' h. run h p s') s (map snd (filter (\<lambda>(k', h). k' = k) regs))"
    by (simp add: dispatch_def equal_range_register_all)
  show "dispatch (\<lambda>h p log. log @ [(h, p)]) k p (register_all regs []) [] =
       map (\<lambda>h. (h, p)) (map snd (filter (\<lambda>(k', h). k' = k) regs))"
    by (simp add: dispatch_def equal_range_register_all foldl_log)
qed

subsection \<open>C3: a failed connect attempt and the reconnect timer\<close>

text \<open>
  Claim C3 says that a failed connect attempt raises nothing and arms a periodic timer
  that repeats the attempt until one succeeds. The code at the input below: the default
  device, and a serial layer that never opens. \<^verbatim>\<open>InitializeIO\<close> returns after one attempt
  without an exception, but the timer is not started, three expiries of the period add
  no attempt, and the constructor completes with that single failed attempt: the
  statements that would create and start the timer are commented out, while the header
  documents \<^verbatim>\<open>Reconnect\<close> as attempting to reconnect every \<^verbatim>\<open>reconnect_delay_s_\<close> seconds.
\<close>

theorem no_retry_after_failed_connect:
  "InitializeIO never_connects ((fresh_node 115200 True)\<lparr>device := ''/dev/ttyACM0''\<rparr>) =
     Returned ((fresh_node 115200 True)\<lparr>device := ''/dev/ttyACM0'',
                 events := [SerialInit ''/dev/ttyACM0'' 115200 False]\<rparr>)
   \<and> \<not> started (reconnect_timer (state_of
        (InitializeIO never_connects ((fresh_node 115200 True)\<lparr>device := ''/dev/ttyACM0''\<rparr>))))
   \<and> events ((timer_fire never_connects ^^ 3) (state_of
        (InitializeIO never_connects ((fresh_node 115200 True)\<lparr>device := ''/dev/ttyACM0''\<rparr>)))) =
       [SerialInit ''/dev/ttyACM0'' 115200 False]
   \<and> MinROSNode no_params never_connects (fresh_node 0 False) =
      Returned ((fresh_node 0 False)\<lparr>device := ''/dev/ttyACM0'', baudrate := 115200,
                 publish_gpgga := True,
                 callbacks := [(''$GPGGA'', Bind_publish ''nmea_msgs::Gpgga'' ''/gpgga'')],
                 events := [SerialInit ''/dev/ttyACM0'' 115200 False]\<rparr>)"
  by (simp add: InitializeIO_def regex_dev InitializeSerial_def fresh_node_def timer_fire_def
        numeral_3_eq_3 MinROSNode_def GetROSParams_eq param_def Subscribe_def
        never_connects_def no_params_def)

subsection \<open>C4: a successful attempt in the timer callback stops the timer\<close>

text \<open>
  Claim C4. When the call of \<^verbatim>\<open>IO.InitializeSerial\<close> made by \<^verbatim>\<open>Reconnect\<close> returns true, the
  callback sets the flag and stops the reconnect timer: the timer is not started
  afterwards, the log ends with the attempt and the stop, and any number of further
  expiries of the period changes nothing, so no further attempt is made.
\<close>

theorem success_stops_timer:
  assumes "env (events st) (device st) (baudrate st)"
  shows "\<not> started (reconnect_timer (Reconnect env st))
       \<and> connected (Reconnect env st)
       \<and> events (Reconnect env st) =
           events st @ [SerialInit (device st) (baudrate st) True, TimerStop]
       \<and> (timer_fire env ^^ n) (Reconnect env st) = Reconnect env st"
proof -
  have r: "Reconnect env st =
     st\<lparr>events := events st @ [SerialInit (device st) (baudrate st) True, TimerStop],
          connected := True, reconnect_timer := \<lparr>started = False\<rparr>\<rparr>"
    using assms by (simp add: Reconnect_eq Let_def)
  then have "\<not> started (reconnect_timer (Reconnect env st))" by simp
  then have "(timer_fire env ^^ n) (Reconnect env st) = Reconnect env st"
    by (rule timer_fire_stopped)
  with r show ?thesis by simp
qed

theorem success_stops_timer_witness:
  "\<not> started (reconnect_timer (Reconnect (\<lambda>h p b. True)
        ((fresh_node 115200 True)\<lparr>device := ''/dev/ttyACM0'', reconnect_timer := \<lparr>started = True\<rparr>\<rparr>)))
   \<and> events (Reconnect (\<lambda>h p b. True)
        ((fresh_node 115200 True)\<lparr>device := ''/dev/ttyACM0'', reconnect_timer := \<lparr>started = True\<rparr>\<rparr>)) =
       [SerialInit ''/dev/ttyACM0'' 115200 True, TimerStop]
   \<and> (timer_fire (\<lambda>h p b. True) ^^ 3) (Reconnect (\<lambda>h p b. True)
        ((fresh_node 115200 True)\<lparr>device := ''/dev/ttyACM0'', reconnect_timer := \<lparr>started = True\<rparr>\<rparr>)) =
      Reconnect (\<lambda>h p b. True)
        ((fresh_node 115200 True)\<lparr>device := ''/dev/ttyACM0'', reconnect_timer := \<lparr>started = True\<rparr>\<rparr>)"
  using success_stops_timer [of "\<lambda>h p b. True"
      "(fresh_node 115200 True)\<lparr>device := ''/dev/ttyACM0'', reconnect_timer := \<lparr>started = True\<rparr>\<rparr>" 3]
  by (simp add: fresh_node_def)

subsection \<open>C5: a descriptor the pattern does not match is taken as a serial device\<close>

text \<open>
  Claim C5 says that every malformed descriptor is a fatal configuration error that
  halts startup. It is not: \<^verbatim>\<open>udp://192.168.3.1\<close>, a network descriptor without its port,
  does not match the pattern, so \<^verbatim>\<open>InitializeIO\<close> hands it to \<^verbatim>\<open>IO.InitializeSerial\<close> as a
  device path and returns, and the constructor goes on to \<^verbatim>\<open>Subscribe\<close>.
\<close>

theorem malformed_descriptor_taken_as_serial:
  "InitializeIO never_connects ((fresh_node 115200 True)\<lparr>device := ''udp://192.168.3.1''\<rparr>) =
     Returned ((fresh_node 115200 True)\<lparr>device := ''udp://192.168.3.1'',
        events := [SerialInit ''udp://192.168.3.1'' 115200 False]\<rparr>)
   \<and> MinROSNode
        (no_params\<lparr>string_params := (string_params no_params)(''device'' \<mapsto> ''udp://192.168.3.1'')\<rparr>)
        never_connects (fresh_node 0 False) =
     Returned ((fresh_node 0 True)\<lparr>device := ''udp://192.168.3.1'', baudrate := 115200,
        callbacks := [(''$GPGGA'', Bind_publish ''nmea_msgs::Gpgga'' ''/gpgga'')],
        events := [SerialInit ''udp://192.168.3.1'' 115200 False]\<rparr>)"
  by (simp add: InitializeIO_def regex_noport InitializeSerial_def fresh_node_def
        MinROSNode_def GetROSParams_eq param_def Subscribe_def never_connects_def no_params_def)

text \<open>
  Claim C5, amended. A descriptor that the pattern \<^verbatim>\<open>(tcp|udp)://(.+):(\d+)\<close> does not match
  as a whole, a malformed network descriptor included, raises no configuration error:
  \<^verbatim>\<open>InitializeIO\<close> takes it as a serial device path, calls \<^verbatim>\<open>IO.InitializeSerial\<close> with it
  once and returns, and the constructor continues with \<^verbatim>\<open>Subscribe\<close>.
\<close>

theorem unmatched_descriptor_is_serial:
  assumes "regex_match d = None" and "string_params nh ''device'' = Some d"
  shows "InitializeIO env (st\<lparr>device := d\<rparr>) =
           Returned (st\<lparr>device := d,
             events := events st @ [SerialInit d (baudrate st) (env (events st) d (baudrate st))]\<rparr>)
       \<and> MinROSNode nh env st0 =
           Returned (Subscribe nh
             (st0\<lparr>device := d,
                  baudrate := (case int_params nh ''serial/baudrate'' of None \<Rightarrow> 115200 | Some p \<Rightarrow> p),
                  events := events st0 @
                    [SerialInit d (case int_params nh ''serial/baudrate'' of None \<Rightarrow> 115200 | Some p \<Rightarrow> p)
                       (env (events st0) d
                          (case int_params nh ''serial/baudrate'' of None \<Rightarrow> 115200 | Some p \<Rightarrow> p))]\<rparr>))"
proof
  show "InitializeIO env (st\<lparr>device := d\<rparr>) =
           Returned (st\<lparr>device := d,
             events := events st @ [SerialInit d (baudrate st) (env (events st) d (baudrate st))]\<rparr>)"
    using assms(1) by (simp add: InitializeIO_serial)
  let ?b = "case int_params nh ''serial/baudrate'' of None \<Rightarrow> 115200 | Some p \<Rightarrow> p"
  have g: "GetROSParams nh st0 = Returned (st0\<lparr>device := d, baudrate := ?b\<rparr>)"
    using assms(2) by (simp add: GetROSParams_eq param_def)
  have "InitializeIO env (st0\<lparr>device := d, baudrate := ?b\<rparr>) =
          Returned (st0\<lparr>device := d, baudrate := ?b,
             events := events st0 @ [SerialInit d ?b (env (events st0) d ?b)]\<rparr>)"
    using assms(1) by (simp add: InitializeIO_serial)
  with g show "MinROSNode nh env st0 =
           Returned (Subscribe nh
             (st0\<lparr>device := d, baudrate := ?b,
                  events := events st0 @ [SerialInit d ?b (env (events st0) d ?b)]\<rparr>))"
    by (simp add: MinROSNode_def)
qed

theorem unmatched_descriptor_is_serial_witness:
  "InitializeIO (\<lambda>h p b. True) ((fresh_node 115200 False)\<lparr>device := ''tcp://192.168.3.1:port''\<rparr>) =
     Returned ((fresh_node 115200 False)\<lparr>device := ''tcp://192.168.3.1:port'',
        events := [SerialInit ''tcp://192.168.3.1:port'' 115200 True]\<rparr>)
   \<and> MinROSNode \<lparr>string_params = [''device'' \<mapsto> ''tcp://192.168.3.1:port''], int_params = Map.empty,
         bool_params = [''publish/gpgga'' \<mapsto> False]\<rparr> (\<lambda>h p b. True) (fresh_node 0 True) =
     Returned ((fresh_node 0 False)\<lparr>device := ''tcp://192.168.3.1:port'', baudrate := 115200,
        events := [SerialInit ''tcp://192.168.3.1:port'' 115200 True]\<rparr>)"
  using unmatched_descriptor_is_serial [of "''tcp://192.168.3.1:port''"
      "\<lparr>string_params = [''device'' \<mapsto> ''tcp://192.168.3.1:port''], int_params = Map.empty,
         bool_params = [''publish/gpgga'' \<mapsto> False]\<rparr>" "\<lambda>h p b. True" "fresh_node 115200 False"
      "fresh_node 0 True"]
  by (simp add: regex_match_def strip_prefix_def is_digit_def fresh_node_def Subscribe_def param_def)

subsection \<open>C6: the subscribe phase and the GPGGA flag\<close>

text \<open>
  Claim C6. \<^verbatim>\<open>Subscribe\<close> reads the parameter \<^verbatim>\<open>publish/gpgga\<close> with the default true. Unless
  the parameter is stored as false, it registers one handler under the identifier
  \<^verbatim>\<open>$GPGGA\<close>, the binding of \<^verbatim>\<open>publish<nmea_msgs::Gpgga>\<close> to the topic \<^verbatim>\<open>/gpgga\<close>: the handlers
  of that identifier are the earlier ones followed by this one, and in a fresh node it
  is the only entry of the registry. Dispatching a message to it publishes the message
  on \<^verbatim>\<open>/gpgga\<close> and nowhere else. When the parameter is stored as false, the registry is
  left as it was, and nothing is published.
\<close>

theorem subscribe_registers_gpgga:
  "callbacks (Subscribe nh st) =
     (if bool_params nh ''publish/gpgga'' = Some False then callbacks st
      else insert_handler ''$GPGGA'' (Bind_publish ''nmea_msgs::Gpgga'' ''/gpgga'') (callbacks st))
   \<and> map snd (equal_range ''$GPGGA'' (callbacks (Subscribe nh (st\<lparr>callbacks := register_all regs []\<rparr>)))) =
       map snd (equal_range ''$GPGGA'' (register_all regs [])) @
         (if bool_params nh ''publish/gpgga'' = Some False then []
          else [Bind_publish ''nmea_msgs::Gpgga'' ''/gpgga''])
   \<and> callbacks (Subscribe nh (fresh_node b g)) =
       (if bool_params nh ''publish/gpgga'' = Some False then []
        else [(''$GPGGA'', Bind_publish ''nmea_msgs::Gpgga'' ''/gpgga'')])
   \<and> dispatch run_handler ''$GPGGA'' m (callbacks (Subscribe nh (fresh_node b g))) ros_start =
       (if bool_params nh ''publish/gpgga'' = Some False then ros_start
        else \<lparr>publishers = [''nmea_msgs::Gpgga'' \<mapsto> ''/gpgga''],
              advertised = [(''nmea_msgs::Gpgga'', ''/gpgga'', ROSQueueSize)],
              published = [(''nmea_msgs::Gpgga'', ''/gpgga'', m)]\<rparr>)"
proof (intro conjI)
  show "callbacks (Subscribe nh st) =
     (if bool_params nh ''publish/gpgga'' = Some False then callbacks st
      else insert_handler ''$GPGGA'' (Bind_publish ''nmea_msgs::Gpgga'' ''/gpgga'') (callbacks st))"
    by (simp add: Subscribe_eq)
  have "insert_handler ''$GPGGA'' (Bind_publish ''nmea_msgs::Gpgga'' ''/gpgga'') (register_all regs []) =
          register_all (regs @ [(''$GPGGA'', Bind_publish ''nmea_msgs::Gpgga'' ''/gpgga'')]) []"
    by (simp add: register_all_snoc)
  then show "map snd (equal_range ''$GPGGA'' (callbacks (Subscribe nh (st\<lparr>callbacks := register_all regs []\<rparr>)))) =
       map snd (equal_range ''$GPGGA'' (register_all regs [])) @
         (if bool_params nh ''publish/gpgga'' = Some False then []
          else [Bind_publish ''nmea_msgs::Gpgga'' ''/gpgga''])"
    by (simp add: Subscribe_eq equal_range_register_all)
  show c: "callbacks (Subscribe nh (fresh_node b g)) =
       (if bool_params nh ''publish/gpgga'' = Some False then []
        else [(''$GPGGA'', Bind_publish ''nmea_msgs::Gpgga'' ''/gpgga'')])"
    by (simp add: Subscribe_eq fresh_node_def)
  show "dispatch run_handler ''$GPGGA'' m (callbacks (Subscribe nh (fresh_node b g))) ros_start =
       (if bool_params nh ''publish/gpgga'' = Some False then ros_start
        else \<lparr>publishers = [''nmea_msgs::Gpgga'' \<mapsto> ''/gpgga''],
              advertised = [(''nmea_msgs::Gpgga'', ''/gpgga'', ROSQueueSize)],
              published = [(''nmea_msgs::Gpgga'', ''/gpgga'', m)]\<rparr>)"
    by (simp add: c dispatch_def equal_range_def publish_def ros_start_def)
qed

subsection \<open>C7: the checksum of an ASCII frame, and a mismatch is not dispatched\<close>

text \<open>
  Claim C7. Take an ASCII frame \<open>$ body * c1 c2\<close> whose body has no \<^verbatim>\<open>*\<close>; a frame with a
  \<^verbatim>\<open>*\<close> and two bytes behind it reads so in exactly one way, the body being what stands
  before its first \<^verbatim>\<open>*\<close>. The decoder yields the frame with its identifier, valid exactly
  when the rendered checksum of the body equals \<open>c1 c2\<close>. The checksum is the
  exclusive-or of the bytes of the body: each of its bits is set exactly when an odd
  number of these bytes have that bit set. Its rendering is two characters, both
  uppercase hexadecimal digits, that read back as the checksum, high nibble first. When
  the rendering differs from \<open>c1 c2\<close>, the frame is yielded with \<^verbatim>\<open>valid=false\<close> and the
  dispatcher leaves the state as it is: no handler runs, whatever the filter and the
  registry hold; when it agrees and the identifier is enabled, the handlers of the
  identifier run. A frame that is valid stops being so when one byte of its body is
  replaced by another and the checksum characters are kept.
\<close>

theorem checksum_mismatch_not_dispatched:
  assumes "CHR ''*'' \<notin> set body"
  shows "decode_ascii (CHR ''$'' # body @ CHR ''*'' # c1 # c2 # rest) =
           Some \<lparr>ident = takeWhile (\<lambda>x. x \<noteq> CHR '','') body,
                 payload = CHR ''$'' # body @ CHR ''*'' # c1 # c2 # rest,
                 encoding = Ascii, valid = (render_hex (xor_checksum body) = [c1, c2])\<rparr>
       \<and> (\<forall>i. bit (xor_checksum body) i =
                odd (length (filter (\<lambda>c. bit (of_char c :: 8 word) i) body)))
       \<and> length (render_hex (xor_checksum body)) = 2
       \<and> list_all (\<lambda>c. c \<in> set ''0123456789ABCDEF'') (render_hex (xor_checksum body))
       \<and> 16 * hex_value (render_hex (xor_checksum body) ! 0) +
           hex_value (render_hex (xor_checksum body) ! 1) = unat (xor_checksum body)
       \<and> (render_hex (xor_checksum body) \<noteq> [c1, c2] \<longrightarrow>
            dispatch_message run enabled cbs
              \<lparr>ident = takeWhile (\<lambda>x. x \<noteq> CHR '','') body,
               payload = CHR ''$'' # body @ CHR ''*'' # c1 # c2 # rest,
               encoding = Ascii, valid = False\<rparr> s = s)
       \<and> (render_hex (xor_checksum body) = [c1, c2] \<and>
            enabled (takeWhile (\<lambda>x. x \<noteq> CHR '','') body) = Some True \<longrightarrow>
            dispatch_message run enabled cbs
              \<lparr>ident = takeWhile (\<lambda>x. x \<noteq> CHR '','') body,
               payload = CHR ''$'' # body @ CHR ''*'' # c1 # c2 # rest,
               encoding = Ascii, valid = True\<rparr> s =
            foldl (\<lambda>s' h. run h (CHR ''$'' # body @ CHR ''*'' # c1 # c2 # rest) s') s
              (map snd (equal_range (takeWhile (\<lambda>x. x \<noteq> CHR '','') body) cbs)))
       \<and> (\<forall>xs c d ys. body = xs @ c # ys \<and> d \<noteq> c \<and> d \<noteq> CHR ''*'' \<and>
              render_hex (xor_checksum body) = [c1, c2] \<longrightarrow>
            decode_ascii (CHR ''$'' # (xs @ d # ys) @ CHR ''*'' # c1 # c2 # rest) =
              Some \<lparr>ident = takeWhile (\<lambda>x. x \<noteq> CHR '','') (xs @ d # ys),
                    payload = CHR ''$'' # (xs @ d # ys) @ CHR ''*'' # c1 # c2 # rest,
                    encoding = Ascii, valid = False\<rparr>)"
proof (intro conjI allI impI)
  show "decode_ascii (CHR ''$'' # body @ CHR ''*'' # c1 # c2 # rest) =
           Some \<lparr>ident = takeWhile (\<lambda>x. x \<noteq> CHR '','') body,
                 payload = CHR ''$'' # body @ CHR ''*'' # c1 # c2 # rest,
                 encoding = Ascii, valid = (render_hex (xor_checksum body) = [c1, c2])\<rparr>"
    using decode_ascii_frame [OF assms, of c1 c2 rest] by (simp add: eq_commute)
  show "bit (xor_checksum body) i =
          odd (length (filter (\<lambda>c. bit (of_char c :: 8 word) i) body))" for i
    by (rule xor_checksum_parity)
  show "length (render_hex (xor_checksum body)) = 2"
    and "list_all (\<lambda>c. c \<in> set ''0123456789ABCDEF'') (render_hex (xor_checksum body))"
    and "16 * hex_value (render_hex (xor_checksum body) ! 0) +
           hex_value (render_hex (xor_checksum body) ! 1) = unat (xor_checksum body)"
    using render_hex_spec [of "xor_checksum body"] by blast+
  show "dispatch_message run enabled cbs
              \<lparr>ident = takeWhile (\<lambda>x. x \<noteq> CHR '','') body,
               payload = CHR ''$'' # body @ CHR ''*'' # c1 # c2 # rest,
               encoding = Ascii, valid = False\<rparr> s = s"
    by (simp add: dispatch_message_def)
  show "dispatch_message run enabled cbs
              \<lparr>ident = takeWhile (\<lambda>x. x \<noteq> CHR '','') body,
               payload = CHR ''$'' # body @ CHR ''*'' # c1 # c2 # rest,
               encoding = Ascii, valid = True\<rparr> s =
            foldl (\<lambda>s' h. run h (CHR ''$'' # body @ CHR ''*'' # c1 # c2 # rest) s') s
              (map snd (equal_range (takeWhile (\<lambda>x. x \<noteq> CHR '','') body) cbs))"
    if "render_hex (xor_checksum body) = [c1, c2] \<and>
            enabled (takeWhile (\<lambda>x. x \<noteq> CHR '','') body) = Some True"
    using that by (simp add: dispatch_message_def dispatch_def)
next
  fix xs c d ys
  assume a: "body = xs @ c # ys \<and> d \<noteq> c \<and> d \<noteq> CHR ''*'' \<and>
              render_hex (xor_checksum body) = [c1, c2]"
  then have star: "CHR ''*'' \<notin> set (xs @ d # ys)" using assms by auto
  from a have "xor_checksum (xs @ d # ys) \<noteq> xor_checksum body"
    using flipped_byte_changes_checksum [of d c xs ys] by simp
  then have "render_hex (xor_checksum (xs @ d # ys)) \<noteq> render_hex (xor_checksum body)"
    using render_hex_inj by blast
  moreover from a have "render_hex (xor_checksum body) = [c1, c2]" by blast
  ultimately have ne: "[c1, c2] \<noteq> render_hex (xor_checksum (xs @ d # ys))" by metis
  have "decode_ascii (CHR ''$'' # (xs @ d # ys) @ CHR ''*'' # c1 # c2 # rest) =
     Some \<lparr>ident = takeWhile (\<lambda>x. x \<noteq> CHR '','') (xs @ d # ys),
           payload = CHR ''$'' # (xs @ d # ys) @ CHR ''*'' # c1 # c2 # rest,
           encoding = Ascii, valid = ([c1, c2] = render_hex (xor_checksum (xs @ d # ys)))\<rparr>"
    using star by (rule decode_ascii_frame)
  with ne show "decode_ascii (CHR ''$'' # (xs @ d # ys) @ CHR ''*'' # c1 # c2 # rest) =
              Some \<lparr>ident = takeWhile (\<lambda>x. x \<noteq> CHR '','') (xs @ d # ys),
                    payload = CHR ''$'' # (xs @ d # ys) @ CHR ''*'' # c1 # c2 # rest,
                    encoding = Ascii, valid = False\<rparr>"
    by simp
qed

theorem checksum_mismatch_not_dispatched_witness:
  "decode_ascii ''$GPGGA,092750.000,5321.6802,N,00630.3372,W,1,8,1.03,61.7,M,55.2,M,,*76'' =
     Some \<lparr>ident = ''GPGGA'',
           payload = ''$GPGGA,092750.000,5321.6802,N,00630.3372,W,1,8,1.03,61.7,M,55.2,M,,*76'',
           encoding = Ascii, valid = True\<rparr>
   \<and> render_hex (xor_checksum ''GPGGA,092750.000,5321.6802,N,00630.3372,W,1,8,1.03,61.7,M,55.2,M,,'') = ''76''
   \<and> dispatch_message (\<lambda>h p log. log @ [h]) [''GPGGA'' \<mapsto> True]
        (register_all [(''GPGGA'', ''first''), (''GPGGA'', ''second'')] [])
        \<lparr>ident = ''GPGGA'',
         payload = ''$GPGGA,092750.000,5321.6802,N,00630.3372,W,1,8,1.03,61.7,M,55.2,M,,*76'',
         encoding = Ascii, valid = True\<rparr> [] = [''first'', ''second'']
   \<and> decode_ascii ''$GPGGA,092751.000,5321.6802,N,00630.3372,W,1,8,1.03,61.7,M,55.2,M,,*76'' =
     Some \<lparr>ident = ''GPGGA'',
           payload = ''$GPGGA,092751.000,5321.6802,N,00630.3372,W,1,8,1.03,61.7,M,55.2,M,,*76'',
           encoding = Ascii, valid = False\<rparr>
   \<and> dispatch_message (\<lambda>h p log. log @ [h]) [''GPGGA'' \<mapsto> True]
        (register_all [(''GPGGA'', ''first''), (''GPGGA'', ''second'')] [])
        \<lparr>ident = ''GPGGA'',
         payload = ''$GPGGA,092751.000,5321.6802,N,00630.3372,W,1,8,1.03,61.7,M,55.2,M,,*76'',
         encoding = Ascii, valid = False\<rparr> [] = []"
  using checksum_mismatch_not_dispatched
    [of "''GPGGA,092750.000,5321.6802,N,00630.3372,W,1,8,1.03,61.7,M,55.2,M,,''" "CHR ''7''" "CHR ''6''"
        "[]" "\<lambda>h p log. log @ [h]" "[''GPGGA'' \<mapsto> True]"
        "register_all [(''GPGGA'', ''first''), (''GPGGA'', ''second'')] []" "[]"]
    checksum_mismatch_not_dispatched
    [of "''GPGGA,092751.000,5321.6802,N,00630.3372,W,1,8,1.03,61.7,M,55.2,M,,''" "CHR ''7''" "CHR ''6''"
        "[]" "\<lambda>h p log. log @ [h]" "[''GPGGA'' \<mapsto> True]"
        "register_all [(''GPGGA'', ''first''), (''GPGGA'', ''second'')] []" "[]"]
  by (simp add: render_hex_def xor_checksum_def hex_digit_def decode_ascii_def dispatch_message_def
        dispatch_def register_all_def equal_range_def)

subsection \<open>C8: the connected flag and a success outside the timer callback\<close>


subsection \<open>C9: the integer getter accepts every value\<close>

text \<open>
  Claim C9. \<^verbatim>\<open>GetROSInt\<close> casts the retrieved \<^verbatim>\<open>int\<close> to \<^verbatim>\<open>U\<close> and only then checks it against
  \<^verbatim>\<open>U\<close>'s own lowest and greatest value, so the check never fails and the getter never
  throws: a stored parameter is always accepted as its cast. This holds for every width
  and signedness of \<^verbatim>\<open>U\<close>, the 32-bit and wider ones of the claim among them. For the
  unsigned 32-bit \<^verbatim>\<open>U\<close> of the baud rate the accepted value is the parameter modulo
  \<open>2 ^ 32\<close>: the parameter \<open>-1\<close> gives the baud rate \<open>4294967295\<close>, also through
  \<^verbatim>\<open>GetROSParams\<close>.
\<close>

theorem GetROSInt_accepts_every_value:
  "checkRange s (scast (p :: 32 word) :: 'a::len word) (numeric_limits_lowest s) (numeric_limits_max s) key = Inr ()
   \<and> GetROSInt s nh key (u :: 'a word) =
       Inr (case int_params nh key of None \<Rightarrow> (False, u) | Some q \<Rightarrow> (True, scast q))
   \<and> unat (scast p :: 32 word) = nat (sint p mod 2 ^ 32)
   \<and> GetROSInt Unsigned (nh\<lparr>int_params := (int_params nh)(''serial/baudrate'' \<mapsto> - 1)\<rparr>)
        ''serial/baudrate'' (b :: 32 word) = Inr (True, 4294967295)
   \<and> GetROSParams (nh\<lparr>int_params := (int_params nh)(''serial/baudrate'' \<mapsto> - 1)\<rparr>) st =
        Returned (st\<lparr>device := param (string_params nh) ''device'' ''/dev/ttyACM0'',
                     baudrate := 4294967295\<rparr>)"
proof (intro conjI)
  show "checkRange s (scast p :: 'a word) (numeric_limits_lowest s) (numeric_limits_max s) key = Inr ()"
    by (rule checkRange_limits)
  show "GetROSInt s nh key u =
       Inr (case int_params nh key of None \<Rightarrow> (False, u) | Some q \<Rightarrow> (True, scast q))"
    by (rule GetROSInt_eq)
  show "unat (scast p :: 32 word) = nat (sint p mod 2 ^ 32)"
    unfolding scast_id by (rule uint32_wrap)
  show "GetROSInt Unsigned (nh\<lparr>int_params := (int_params nh)(''serial/baudrate'' \<mapsto> - 1)\<rparr>)
        ''serial/baudrate'' b = Inr (True, 4294967295)"
    by (simp add: GetROSInt_eq)
  show "GetROSParams (nh\<lparr>int_params := (int_params nh)(''serial/baudrate'' \<mapsto> - 1)\<rparr>) st =
        Returned (st\<lparr>device := param (string_params nh) ''device'' ''/dev/ttyACM0'',
                     baudrate := 4294967295\<rparr>)"
    by (simp add: GetROSParams_eq)
qed

subsection \<open>C10: the publisher of a message type is bound to the topic of the first call\<close>

text \<open>
  Claim C10. Let no publisher exist yet for a message type. After any sequence of calls
  of \<^verbatim>\<open>publish\<close> for that type, the publisher is the one advertised by the first call, on
  the topic of the first call and with the queue size \<^verbatim>\<open>ROSQueueSize\<close>; nothing else was
  advertised, and every message of the sequence was published on that first topic,
  whatever topic its own call named. Two destination names for one message type are
  therefore never both served.
\<close>

theorem publisher_bound_to_first_topic:
  assumes "publishers r ty = None"
  shows "publish_all ty ((m0, t0) # calls) r =
           r\<lparr>publishers := (publishers r)(ty \<mapsto> t0),
             advertised := advertised r @ [(ty, t0, ROSQueueSize)],
             published := published r @ map (\<lambda>(m, t). (ty, t0, m)) ((m0, t0) # calls)\<rparr>"
proof -
  let ?r = "publish ty m0 t0 r"
  have p: "?r = r\<lparr>publishers := (publishers r)(ty \<mapsto> t0),
             advertised := advertised r @ [(ty, t0, ROSQueueSize)],
             published := published r @ [(ty, t0, m0)]\<rparr>"
    using assms by (simp add: publish_def)
  then have "publishers ?r ty = Some t0" by simp
  from publish_all_bound [OF this, of calls]
  have "publish_all ty calls ?r = ?r\<lparr>published := published ?r @ map (\<lambda>(m, t). (ty, t0, m)) calls\<rparr>" .
  moreover have "publish_all ty ((m0, t0) # calls) r = publish_all ty calls ?r"
    by (simp add: publish_all_def)
  ultimately show ?thesis by (simp add: p)
qed

theorem publisher_bound_to_first_topic_witness:
  "publish_all ''nmea_msgs::Gpgga'' [(''m1'', ''/gpgga''), (''m2'', ''/gpgga_raw''), (''m3'', ''/gpgga'')] ros_start =
     \<lparr>publishers = [''nmea_msgs::Gpgga'' \<mapsto> ''/gpgga''],
      advertised = [(''nmea_msgs::Gpgga'', ''/gpgga'', 1)],
      published = [(''nmea_msgs::Gpgga'', ''/gpgga'', ''m1''), (''nmea_msgs::Gpgga'', ''/gpgga'', ''m2''),
                   (''nmea_msgs::Gpgga'', ''/gpgga'', ''m3'')]\<rparr>"
  using publisher_bound_to_first_topic [of "ros_start :: string ros_out" "''nmea_msgs::Gpgga''" "''m1''" "''/gpgga''"
      "[(''m2'', ''/gpgga_raw''), (''m3'', ''/gpgga'')]"]
  by (simp add: ros_start_def ROSQueueSize_def)

end
